theory Spec2Isabelle
  imports
    Complex_Main
    "HOL-Library.Product_Lexorder"
    "HOL-Library.List_Lexorder"
    "HOL-Library.Char_ord"
    "HOL-Library.Option_ord"
begin

section \<open>Floating-point cells\<close>

text \<open>
  The columns of the pipeline are numpy float64 columns. A cell is modelled as an exact
  real number or one of the three special values of IEEE 754; rounding is not modelled.
  Comparisons and division by zero follow IEEE 754, as numpy does: every ordered
  comparison with NaN is false, and a division by zero raises nothing but yields an
  infinity or NaN.
\<close>

datatype pyfloat = Fin real | PInf | NInf | NaN

fun pylt :: "pyfloat \<Rightarrow> pyfloat \<Rightarrow> bool" where
  "pylt NaN _ = False"
| "pylt _ NaN = False"
| "pylt (Fin a) (Fin b) = (a < b)"
| "pylt _ NInf = False"
| "pylt NInf _ = True"
| "pylt PInf _ = False"
| "pylt _ PInf = True"

fun pyle :: "pyfloat \<Rightarrow> pyfloat \<Rightarrow> bool" where
  "pyle NaN _ = False"
| "pyle _ NaN = False"
| "pyle (Fin a) (Fin b) = (a \<le> b)"
| "pyle NInf _ = True"
| "pyle _ PInf = True"
| "pyle _ NInf = False"
| "pyle PInf _ = False"

fun pydiv :: "pyfloat \<Rightarrow> pyfloat \<Rightarrow> pyfloat" where
  "pydiv NaN _ = NaN"
| "pydiv _ NaN = NaN"
| "pydiv (Fin a) (Fin b) =
     (if b = 0 then (if a = 0 then NaN else if 0 < a then PInf else NInf)
      else Fin (a / b))"
| "pydiv (Fin a) _ = Fin 0"
| "pydiv PInf (Fin b) = (if 0 \<le> b then PInf else NInf)"
| "pydiv NInf (Fin b) = (if 0 \<le> b then NInf else PInf)"
| "pydiv _ _ = NaN"

section \<open>Risk levels (dataExploration.py, lines 126--139)\<close>

text \<open>
  \<open>Series.quantile(q)\<close> with the default linear interpolation: on the sorted values
  \<open>s\<close> of length \<open>n\<close> the result lies at the virtual position \<open>(n - 1) * q\<close>, between
  the neighbours \<open>s ! lo\<close> and \<open>s ! hi\<close>. The quantile of an empty column is NaN.
\<close>

definition lerp :: "real list \<Rightarrow> real \<Rightarrow> real" where
  "lerp s pos =
     (let lo = nat \<lfloor>pos\<rfloor>;
          hi = min (lo + 1) (length s - 1)
      in s ! lo + (s ! hi - s ! lo) * (pos - real lo))"

definition quantile :: "real list \<Rightarrow> real \<Rightarrow> pyfloat" where
  "quantile xs q =
     (if xs = [] then NaN
      else let s = sort xs in Fin (lerp s (real (length s - 1) * q)))"

text \<open>
  The column \<open>risk_score\<close>, the negated \<open>decision_function\<close> of the detector, is an
  input of the model: the list \<open>scores\<close>, one finite value per row of the table. The two
  thresholds are computed from the whole column.
\<close>

definition low_thresh :: "real list \<Rightarrow> pyfloat" where
  "low_thresh scores = quantile scores 0.75"

definition high_thresh :: "real list \<Rightarrow> pyfloat" where
  "high_thresh scores = quantile scores 0.95"

text \<open>
  \<open>classify_risk\<close> reads the two thresholds from the enclosing module; here they are its
  first two arguments.
\<close>

definition classify_risk :: "pyfloat \<Rightarrow> pyfloat \<Rightarrow> pyfloat \<Rightarrow> string" where
  "classify_risk low high score =
     (if pylt score low then ''Low''
      else if pylt score high then ''Medium''
      else ''High'')"

text \<open>The column \<open>risk_level\<close>: \<open>classify_risk\<close> applied to every cell of \<open>risk_score\<close>.\<close>

definition risk_level :: "real list \<Rightarrow> string list" where
  "risk_level scores =
     map (\<lambda>s. classify_risk (low_thresh scores) (high_thresh scores) (Fin s)) scores"

text \<open>
  The order of the levels, as the dashboard's risk-level query sorts them
  (dashboard.py, lines 291--296).
\<close>

definition risk_level_rank :: "string \<Rightarrow> nat" where
  "risk_level_rank l =
     (if l = ''Low'' then 1
      else if l = ''Medium'' then 2
      else if l = ''High'' then 3
      else 4)"

section \<open>Feature engineering (dataExploration.py, lines 8--82)\<close>

subsection \<open>Raw logs and daily aggregates\<close>

text \<open>
  \<open>read_csv\<close> parses no dates: a \<open>date\<close> cell of a raw log is its text, and the
  grouping and the join below compare these texts. Cells may be empty (\<open>None\<close>). A
  logon or device event is its columns \<open>user\<close>, \<open>date\<close>, \<open>activity\<close>; an http event is
  \<open>user\<close>, \<open>date\<close>, \<open>url\<close>, \<open>bytes_sent\<close>, \<open>bytes_received\<close>. The other columns of
  the logs are never read.
\<close>

type_synonym user_date = "string \<times> string"

type_synonym activity_event = "string option \<times> string option \<times> string option"
type_synonym http_event =
  "string option \<times> string option \<times> string option \<times> real option \<times> real option"

text \<open>
  \<open>df.groupby(keys)\<close>: one group per distinct key, in ascending key order; rows with an
  empty key cell belong to no group. \<open>count\<close> counts the non-empty cells of a column,
  \<open>sum\<close> adds them.
\<close>

definition groupby :: "('e \<Rightarrow> 'k::linorder option) \<Rightarrow> 'e list \<Rightarrow> ('k \<times> 'e list) list" where
  "groupby by df =
     map (\<lambda>k. (k, filter (\<lambda>e. by e = Some k) df)) (sort (remdups (List.map_filter by df)))"

definition agg_count :: "('e \<Rightarrow> 'a option) \<Rightarrow> 'e list \<Rightarrow> nat" where
  "agg_count col g = length (filter (\<lambda>e. col e \<noteq> None) g)"

definition agg_sum :: "('e \<Rightarrow> real option) \<Rightarrow> 'e list \<Rightarrow> real" where
  "agg_sum col g = sum_list (List.map_filter col g)"

definition by_user_date :: "string option \<Rightarrow> string option \<Rightarrow> user_date option" where
  "by_user_date u d = (case (u, d) of (Some u', Some d') \<Rightarrow> Some (u', d') | _ \<Rightarrow> None)"

definition logon_agg :: "activity_event list \<Rightarrow> (user_date \<times> nat) list" where
  "logon_agg logon_df =
     map (\<lambda>(k, g). (k, agg_count (\<lambda>(u, d, activity). activity) g))
       (groupby (\<lambda>(u, d, activity). by_user_date u d) logon_df)"

definition http_agg :: "http_event list \<Rightarrow> (user_date \<times> nat \<times> real \<times> real) list" where
  "http_agg http_df =
     map (\<lambda>(k, g). (k, agg_count (\<lambda>(u, d, url, bytes_sent, bytes_received). url) g,
                        agg_sum (\<lambda>(u, d, url, bytes_sent, bytes_received). bytes_sent) g,
                        agg_sum (\<lambda>(u, d, url, bytes_sent, bytes_received). bytes_received) g))
       (groupby (\<lambda>(u, d, url, bytes_sent, bytes_received). by_user_date u d) http_df)"

definition device_agg :: "activity_event list \<Rightarrow> (user_date \<times> nat) list" where
  "device_agg device_df =
     map (\<lambda>(k, g). (k, agg_count (\<lambda>(u, d, activity). activity) g))
       (groupby (\<lambda>(u, d, activity). by_user_date u d) device_df)"

subsection \<open>The outer join\<close>

text \<open>
  \<open>pd.merge(left, right, on=keys, how='outer')\<close>: the keys of both sides in ascending
  order; under each key every pairing of the left rows with the right rows of that key,
  and an empty side (\<open>None\<close>, pandas' NaN cells) where one table has no row for it.
\<close>

definition merge_outer ::
  "('k::linorder \<times> 'a) list \<Rightarrow> ('k \<times> 'b) list \<Rightarrow> ('k \<times> 'a option \<times> 'b option) list" where
  "merge_outer left right =
     concat (map (\<lambda>k.
        let ls = map snd (filter (\<lambda>l. fst l = k) left);
            rs = map snd (filter (\<lambda>r. fst r = k) right)
        in List.product [k]
             (List.product (if ls = [] then [None] else map Some ls)
                           (if rs = [] then [None] else map Some rs)))
       (sort (remdups (map fst left @ map fst right))))"

record 'd merged_row =
  user :: string
  date :: 'd
  logon_count :: real
  http_requests :: real
  http_bytes_sent :: real
  http_bytes_received :: real
  device_activity_count :: real

text \<open>\<open>fillna(0)\<close> on a row of the twice-merged table: every empty measure becomes 0.\<close>

definition fillna ::
  "user_date \<times> (nat option \<times> (nat \<times> real \<times> real) option) option \<times> nat option
     \<Rightarrow> string merged_row" where
  "fillna row =
     (case row of (k, lh, d) \<Rightarrow>
        let l = (case lh of Some (Some c, _) \<Rightarrow> Some c | _ \<Rightarrow> None);
            h = (case lh of Some (_, Some t) \<Rightarrow> Some t | _ \<Rightarrow> None)
        in \<lparr>user = fst k, date = snd k,
            logon_count = (case l of None \<Rightarrow> 0 | Some c \<Rightarrow> real c),
            http_requests = (case h of None \<Rightarrow> 0 | Some (n, s, r) \<Rightarrow> real n),
            http_bytes_sent = (case h of None \<Rightarrow> 0 | Some (n, s, r) \<Rightarrow> s),
            http_bytes_received = (case h of None \<Rightarrow> 0 | Some (n, s, r) \<Rightarrow> r),
            device_activity_count = (case d of None \<Rightarrow> 0 | Some c \<Rightarrow> real c)\<rparr>)"

definition merged_df ::
  "activity_event list \<Rightarrow> http_event list \<Rightarrow> activity_event list \<Rightarrow> string merged_row list" where
  "merged_df logon_df http_df device_df =
     map fillna
       (merge_outer (merge_outer (logon_agg logon_df) (http_agg http_df)) (device_agg device_df))"

subsection \<open>Calendar columns\<close>

text \<open>
  Line 44 is the first to parse the date texts. What \<open>pd.to_datetime\<close> reads from the
  text of a cell is the parameter \<open>read_date\<close>: a calendar date (year, month, day) and,
  when the text carries one, a time of day (hour, minute, second); \<open>None\<close> for a text
  it rejects, on which the call raises and the script ends. A cell without a time of day
  becomes midnight. The columns \<open>hour\<close>, \<open>minute\<close> and \<open>is_off_hours\<close> are functions
  of the row's timestamp.
\<close>

type_synonym rawdate = "(nat \<times> nat \<times> nat) \<times> (nat \<times> nat \<times> nat) option"
type_synonym timestamp = "(nat \<times> nat \<times> nat) \<times> (nat \<times> nat \<times> nat)"

definition to_datetime :: "rawdate \<Rightarrow> timestamp" where
  "to_datetime d = (fst d, (case snd d of None \<Rightarrow> (0, 0, 0) | Some t \<Rightarrow> t))"

definition with_datetime ::
  "(string \<Rightarrow> rawdate option) \<Rightarrow> string merged_row list \<Rightarrow> timestamp merged_row list option" where
  "with_datetime read_date df =
     those (map (\<lambda>r. case read_date (date r) of
                        None \<Rightarrow> None
                      | Some d \<Rightarrow>
                          Some \<lparr>user = user r, date = to_datetime d,
                                logon_count = logon_count r, http_requests = http_requests r,
                                http_bytes_sent = http_bytes_sent r,
                                http_bytes_received = http_bytes_received r,
                                device_activity_count = device_activity_count r\<rparr>) df)"

definition hour :: "timestamp merged_row \<Rightarrow> nat" where
  "hour r = fst (snd (date r))"

definition minute :: "timestamp merged_row \<Rightarrow> nat" where
  "minute r = fst (snd (snd (date r)))"

definition is_off_hours :: "timestamp merged_row \<Rightarrow> nat" where
  "is_off_hours r = (let h = hour r in if h < 7 \<or> h > 19 then 1 else 0)"

subsection \<open>Per-user baseline and spikes\<close>

text \<open>
  \<open>mean\<close> and \<open>std\<close> of a group (the sample standard deviation, which is NaN for a
  group of one row), then the left join of the baseline back on \<open>user\<close>: every row
  reads the statistics of its own user.
\<close>

fun pysub :: "pyfloat \<Rightarrow> pyfloat \<Rightarrow> pyfloat" where
  "pysub NaN _ = NaN"
| "pysub _ NaN = NaN"
| "pysub (Fin a) (Fin b) = Fin (a - b)"
| "pysub PInf PInf = NaN"
| "pysub NInf NInf = NaN"
| "pysub PInf _ = PInf"
| "pysub NInf _ = NInf"
| "pysub _ PInf = NInf"
| "pysub _ NInf = PInf"

definition agg_mean :: "real list \<Rightarrow> pyfloat" where
  "agg_mean xs = (if xs = [] then NaN else Fin (sum_list xs / real (length xs)))"

definition agg_std :: "real list \<Rightarrow> pyfloat" where
  "agg_std xs =
     (if length xs < 2 then NaN
      else let m = sum_list xs / real (length xs)
           in Fin (sqrt (sum_list (map (\<lambda>x. (x - m)\<^sup>2) xs) / real (length xs - 1))))"

type_synonym baseline = "(pyfloat \<times> pyfloat) \<times> (pyfloat \<times> pyfloat) \<times> (pyfloat \<times> pyfloat)"

definition user_baseline :: "'d merged_row list \<Rightarrow> (string \<times> baseline) list" where
  "user_baseline df =
     map (\<lambda>u. let g = filter (\<lambda>r. user r = u) df
              in (u, (agg_mean (map logon_count g), agg_std (map logon_count g)),
                     (agg_mean (map http_requests g), agg_std (map http_requests g)),
                     (agg_mean (map device_activity_count g),
                      agg_std (map device_activity_count g))))
       (sort (remdups (map user df)))"

definition baseline_of :: "'d merged_row list \<Rightarrow> 'd merged_row \<Rightarrow> baseline" where
  "baseline_of df r =
     (case map_of (user_baseline df) (user r) of
        None \<Rightarrow> ((NaN, NaN), (NaN, NaN), (NaN, NaN))
      | Some b \<Rightarrow> b)"

definition logon_count_mean :: "'d merged_row list \<Rightarrow> 'd merged_row \<Rightarrow> pyfloat" where
  "logon_count_mean df r = fst (fst (baseline_of df r))"

definition logon_count_std :: "'d merged_row list \<Rightarrow> 'd merged_row \<Rightarrow> pyfloat" where
  "logon_count_std df r = snd (fst (baseline_of df r))"

definition http_requests_mean :: "'d merged_row list \<Rightarrow> 'd merged_row \<Rightarrow> pyfloat" where
  "http_requests_mean df r = fst (fst (snd (baseline_of df r)))"

definition http_requests_std :: "'d merged_row list \<Rightarrow> 'd merged_row \<Rightarrow> pyfloat" where
  "http_requests_std df r = snd (fst (snd (baseline_of df r)))"

definition device_activity_count_mean :: "'d merged_row list \<Rightarrow> 'd merged_row \<Rightarrow> pyfloat" where
  "device_activity_count_mean df r = fst (snd (snd (baseline_of df r)))"

definition device_activity_count_std :: "'d merged_row list \<Rightarrow> 'd merged_row \<Rightarrow> pyfloat" where
  "device_activity_count_std df r = snd (snd (snd (baseline_of df r)))"

definition logon_spike :: "'d merged_row list \<Rightarrow> 'd merged_row \<Rightarrow> pyfloat" where
  "logon_spike df r =
     pydiv (pysub (Fin (logon_count r)) (logon_count_mean df r)) (logon_count_std df r)"

definition http_spike :: "'d merged_row list \<Rightarrow> 'd merged_row \<Rightarrow> pyfloat" where
  "http_spike df r =
     pydiv (pysub (Fin (http_requests r)) (http_requests_mean df r)) (http_requests_std df r)"

definition device_spike :: "'d merged_row list \<Rightarrow> 'd merged_row \<Rightarrow> pyfloat" where
  "device_spike df r =
     pydiv (pysub (Fin (device_activity_count r)) (device_activity_count_mean df r))
       (device_activity_count_std df r)"

subsection \<open>Rolling mean of the logon count\<close>

text \<open>
  \<open>sort_values(['user', 'date'])\<close>, then per user
  \<open>x.rolling(3, min_periods=1).mean()\<close>: at position \<open>i\<close> of a series the window is the
  last \<open>window\<close> values up to and including \<open>i\<close>; the result is NaN when the window
  holds fewer than \<open>min_periods\<close> values, and their mean otherwise.
  \<open>groupby(by)[col].transform(f)\<close> applies \<open>f\<close> to the column of each group and
  writes every result back at the position of its row.
\<close>

definition sort_values :: "timestamp merged_row list \<Rightarrow> timestamp merged_row list" where
  "sort_values df = sort_key (\<lambda>r. (user r, date r)) df"

definition rolling_mean :: "nat \<Rightarrow> nat \<Rightarrow> real list \<Rightarrow> pyfloat list" where
  "rolling_mean window min_periods x =
     map (\<lambda>i. let w = drop (Suc i - window) (take (Suc i) x)
              in if length w < min_periods then NaN
                 else Fin (sum_list w / real (length w)))
       [0..<length x]"

definition transform ::
  "('r \<Rightarrow> 'k) \<Rightarrow> ('r \<Rightarrow> real) \<Rightarrow> (real list \<Rightarrow> pyfloat list) \<Rightarrow> 'r list \<Rightarrow> pyfloat list" where
  "transform by col f df =
     map (\<lambda>p. f (map col (filter (\<lambda>r. by r = by (df ! p)) df))
                ! length (filter (\<lambda>r. by r = by (df ! p)) (take p df)))
       [0..<length df]"

definition logon_rolling_3 :: "timestamp merged_row list \<Rightarrow> pyfloat list" where
  "logon_rolling_3 df = transform user logon_count (rolling_mean 3 1) df"

definition logon_delta :: "timestamp merged_row list \<Rightarrow> pyfloat list" where
  "logon_delta df =
     map (\<lambda>(r, m). pysub (Fin (logon_count r)) m) (zip df (logon_rolling_3 df))"


section \<open>The dashboard (dashboard.py)\<close>

subsection \<open>The table \<open>user_data\<close> and the filter\<close>

text \<open>
  A row of \<open>user_data\<close> carries the columns the control flow of the dashboard reads.
  The date column has been cast to DATE (year, month, day). The type \<open>'s\<close> of the three
  spike cells is whatever the loaded file holds; the dashboard only ever compares them
  with \<open>TRUE\<close>.
\<close>

type_synonym sqldate = "nat \<times> nat \<times> nat"

record 's user_data =
  col_date :: sqldate
  col_user :: string
  col_risk_level :: string
  col_risk_score :: real
  col_logon_spike :: 's
  col_http_spike :: 's
  col_device_spike :: 's

text \<open>
  The conditions the script appends to \<open>query_conditions\<close>, and the ones single views
  add to the WHERE clause. \<open>holds\<close> is what a condition means for a row when its SQL
  text is the one intended; a row is selected when every condition holds for it.
\<close>

datatype condition =
    DateRange sqldate sqldate
  | UserIn "string list"
  | RiskLevelIn "string list"
  | RiskLevelIs string
  | LogonSpikeTrue
  | HttpSpikeTrue
  | DeviceSpikeTrue

fun holds :: "('s \<Rightarrow> bool) \<Rightarrow> condition \<Rightarrow> 's user_data \<Rightarrow> bool" where
  "holds is_true (DateRange start_date end_date) r =
     (start_date \<le> col_date r \<and> col_date r \<le> end_date)"
| "holds is_true (UserIn users) r = (col_user r \<in> set users)"
| "holds is_true (RiskLevelIn levels) r = (col_risk_level r \<in> set levels)"
| "holds is_true (RiskLevelIs level) r = (col_risk_level r = level)"
| "holds is_true LogonSpikeTrue r = is_true (col_logon_spike r)"
| "holds is_true HttpSpikeTrue r = is_true (col_http_spike r)"
| "holds is_true DeviceSpikeTrue r = is_true (col_device_spike r)"

definition select_where ::
  "('s \<Rightarrow> bool) \<Rightarrow> condition list \<Rightarrow> 's user_data list \<Rightarrow> 's user_data list" where
  "select_where is_true conds tbl = filter (\<lambda>r. list_all (\<lambda>c. holds is_true c r) conds) tbl"

text \<open>
  The script writes a name into the SQL text between two apostrophes and escapes
  nothing (lines 197 and 210). The text \<open>'name'\<close> is the string literal of the name
  exactly when the name holds no apostrophe; otherwise the literal ends early and the
  rest of the name is read as SQL.
\<close>

definition sql_safe :: "string \<Rightarrow> bool" where
  "sql_safe name = (CHR 0x27 \<notin> set name)"

fun well_quoted :: "condition \<Rightarrow> bool" where
  "well_quoted (UserIn users) = list_all sql_safe users"
| "well_quoted (RiskLevelIn levels) = list_all sql_safe levels"
| "well_quoted (RiskLevelIs level) = sql_safe level"
| "well_quoted _ = True"

text \<open>
  The query engine, as far as the script depends on it: the result of \<open>cell = TRUE\<close> on a
  spike cell, and what the engine makes of a WHERE clause some name of which holds an
  apostrophe: an exception (its name; a parser exception for a name such as o'neil) or
  the rows that the text, read as SQL, selects. A WHERE clause with well-quoted names
  selects the rows for which its conditions hold.
\<close>

record 's engine =
  cell_is_true :: "'s \<Rightarrow> bool"
  on_spliced_text :: "condition list \<Rightarrow> 's user_data list \<Rightarrow> string + 's user_data list"

definition run_query ::
  "'s engine \<Rightarrow> condition list \<Rightarrow> 's user_data list \<Rightarrow> string + 's user_data list" where
  "run_query eng conds tbl =
     (if list_all well_quoted conds then Inr (select_where (cell_is_true eng) conds tbl)
      else on_spliced_text eng conds tbl)"

text \<open>On a column of nullable booleans, \<open>cell = TRUE\<close> selects the cells that are true.\<close>

definition flag_is_true :: "bool option \<Rightarrow> bool" where
  "flag_is_true cell = (cell = Some True)"

subsection \<open>Sidebar (lines 165--229)\<close>

record selection =
  date_range :: "sqldate list"
  selected_users :: "string list"
  selected_risk_levels :: "string list"
  filter_logon_spike :: bool
  filter_http_spike :: bool
  filter_device_spike :: bool

definition RISK_LEVEL_ORDER :: "string list" where
  "RISK_LEVEL_ORDER = [''Low'', ''Medium'', ''High'']"

definition date_conditions :: "selection \<Rightarrow> condition list" where
  "date_conditions sel =
     (case date_range sel of
        [start_date, end_date] \<Rightarrow> [DateRange start_date end_date]
      | _ \<Rightarrow> [])"

definition all_users :: "'s engine \<Rightarrow> 's user_data list \<Rightarrow> selection \<Rightarrow> string list" where
  "all_users eng tbl sel =
     sort (remdups (map col_user (select_where (cell_is_true eng) (date_conditions sel) tbl)))"

definition query_conditions :: "selection \<Rightarrow> condition list" where
  "query_conditions sel =
     date_conditions sel
     @ (if selected_users sel \<noteq> [] then [UserIn (selected_users sel)] else [])
     @ (if selected_risk_levels sel \<noteq> [] then [RiskLevelIn (selected_risk_levels sel)] else [])
     @ (if filter_logon_spike sel then [LogonSpikeTrue] else [])
     @ (if filter_http_spike sel then [HttpSpikeTrue] else [])
     @ (if filter_device_spike sel then [DeviceSpikeTrue] else [])"

subsection \<open>Queries (lines 231--241, 317--350, 391--403, 568)\<close>

text \<open>
  Every query reads \<open>FROM user_data\<close> under the WHERE clause, some with one more
  condition. A query returns its rows or raises.
\<close>

definition base_query ::
  "'s engine \<Rightarrow> 's user_data list \<Rightarrow> selection \<Rightarrow> string + 's user_data list" where
  "base_query eng tbl sel = run_query eng (query_conditions sel) tbl"

definition filtered_row_count :: "'s engine \<Rightarrow> 's user_data list \<Rightarrow> selection \<Rightarrow> string + nat" where
  "filtered_row_count eng tbl sel =
     (case run_query eng (query_conditions sel) tbl of
        Inl exc \<Rightarrow> Inl exc
      | Inr rows \<Rightarrow> Inr (length rows))"

definition high_risk_rows ::
  "'s engine \<Rightarrow> 's user_data list \<Rightarrow> selection \<Rightarrow> string + 's user_data list" where
  "high_risk_rows eng tbl sel =
     run_query eng (query_conditions sel @ [RiskLevelIs ''High'']) tbl"

definition flagged_details ::
  "'s engine \<Rightarrow> 's user_data list \<Rightarrow> selection \<Rightarrow> string + 's user_data list" where
  "flagged_details eng tbl sel =
     (case run_query eng (query_conditions sel @ [RiskLevelIn [''High'', ''Medium'']]) tbl of
        Inl exc \<Rightarrow> Inl exc
      | Inr rows \<Rightarrow> Inr (take 1000 (sort_key (\<lambda>r. - col_risk_score r) rows)))"

subsection \<open>One run of the script\<close>

text \<open>
  A run emits a sequence of elements and ends in one of three ways: it reaches the end
  of the script, \<open>st.stop()\<close> halts it, or an exception escapes. Static headings and
  captions are left out. A chart is represented by its title and the rows its query
  ranges over, a table and a download button by the rows they show or serialise.
\<close>

datatype 's element =
    Title
  | SidebarWarning string
  | Warning string
  | Subheader nat
  | Metric string real
  | DataRange sqldate sqldate
  | Chart string "'s user_data list"
  | Info string
  | DataFrame "'s user_data list"
  | DownloadButton string "'s user_data list"

datatype outcome = Completed | Stopped | Raised string

type_synonym 's run = "'s element list \<times> outcome"

text \<open>
  \<open>emit\<close> puts elements in front of the rest of a run; \<open>on_result\<close> goes on with the
  rows of a query, or ends the run with the exception the query raised; \<open>and_then\<close>
  runs a second part of the script when the first has reached its end.
\<close>

definition emit :: "'s element list \<Rightarrow> 's run \<Rightarrow> 's run" where
  "emit els rest = (els @ fst rest, snd rest)"

definition on_result :: "string + 'a \<Rightarrow> ('a \<Rightarrow> 's run) \<Rightarrow> 's run" where
  "on_result result rest = (case result of Inl exc \<Rightarrow> ([], Raised exc) | Inr v \<Rightarrow> rest v)"

definition and_then :: "'s run \<Rightarrow> 's run \<Rightarrow> 's run" where
  "and_then first second =
     (if snd first = Completed then (fst first @ fst second, snd second) else first)"

text \<open>
  Lines 140--201. On an empty table \<open>MIN(date)\<close> is NULL and \<open>strptime\<close> raises on
  the text \<open>None\<close>. The result is either the end of the run or the elements emitted so
  far, the script going on to the risk-level filter. The queries of the sidebar hold
  dates only, written by the script itself.
\<close>

definition sidebar ::
  "'s engine \<Rightarrow> 's user_data list \<Rightarrow> selection \<Rightarrow> 's run + 's element list" where
  "sidebar eng tbl sel =
     (if tbl = [] then Inl ([Title], Raised ''ValueError'')
      else
        let shown = Title # (if length (date_range sel) = 2 then []
                            else [SidebarWarning ''Please select a valid date range.''])
        in if selected_users sel \<noteq> [] then Inr shown
           else if all_users eng tbl sel = [] then
             Inl (shown @ [Warning
               ''No users found for the selected date range. Please adjust filters.''], Stopped)
           else Inr shown)"

definition kpis :: "nat \<Rightarrow> 's user_data list \<Rightarrow> 's element list" where
  "kpis n rows =
     [Subheader n,
      Metric ''Total Unique Users'' (real (length (remdups (map col_user rows)))),
      Metric ''High Risk Events''
        (real (length (filter (\<lambda>r. col_risk_level r = ''High'') rows))),
      Metric ''Avg. Risk Score'' (sum_list (map col_risk_score rows) / real (length rows))]"

definition tab1 :: "'s engine \<Rightarrow> 's user_data list \<Rightarrow> selection \<Rightarrow> 's run" where
  "tab1 eng tbl sel =
     on_result (base_query eng tbl sel) (\<lambda>rows.
       emit [Chart ''Distribution of Risk Levels'' rows]
         (on_result (high_risk_rows eng tbl sel) (\<lambda>high.
            ([if high \<noteq> [] then Chart ''Daily High Risk Events Over Time'' high
              else Info ''No high-risk events found for time series analysis with current filters.'',
              if high \<noteq> [] then Chart ''Top 10 Users by High Risk Events'' high
              else Info ''No high-risk events found for top user analysis with current filters.'',
              if rows \<noteq> [] then Chart ''Distribution of Risk Scores'' rows
              else Info ''No risk score data to display with current filters.''],
             Completed))))"

definition tab2 :: "'s engine \<Rightarrow> 's user_data list \<Rightarrow> selection \<Rightarrow> nat \<Rightarrow> 's run" where
  "tab2 eng tbl sel n =
     on_result (flagged_details eng tbl sel) (\<lambda>df_flagged_details.
       (if df_flagged_details = [] then
          [Info ''No High or Medium risk events to display with current filters.'']
        else DataFrame df_flagged_details
             # (if n > 1000 then
                  [Info ''Showing the top 1000 events by risk score. Apply more filters to see specific events.'']
                else []),
        Completed))"

definition tab3 :: "'s engine \<Rightarrow> 's user_data list \<Rightarrow> selection \<Rightarrow> 's run" where
  "tab3 eng tbl sel =
     on_result (base_query eng tbl sel) (\<lambda>rows.
       emit (if rows \<noteq> [] then
               [Chart ''Daily Logon Count Trend'' rows,
                Chart ''Daily Device Activity Count Trend'' rows]
             else [Info ''No daily activity data to display with current filters.''])
         (on_result (high_risk_rows eng tbl sel) (\<lambda>high.
            ([if high \<noteq> [] then Chart ''High Risk Events by Hour of Day'' high
              else Info ''No high-risk events to analyze by hour with current filters.'',
              if high \<noteq> [] then Chart ''High Risk Events by Day of Week'' high
              else Info ''No high-risk events to analyze by weekday with current filters.''],
             Completed))))"

definition tab4 :: "'s engine \<Rightarrow> 's user_data list \<Rightarrow> selection \<Rightarrow> 's run" where
  "tab4 eng tbl sel =
     on_result (base_query eng tbl sel) (\<lambda>df_export.
       (if df_export \<noteq> [] then
          [DownloadButton ''filtered_user_risk_analysis.csv'' df_export,
           DownloadButton ''filtered_user_risk_analysis.xlsx'' df_export]
        else [Info ''No data to export with the current filters.''],
        Completed))"

text \<open>
  Lines 203--598. The count query is the first to carry the selected names. When the
  date picker holds no full range, \<open>start_date\<close> was never bound and the ``Data Range''
  card raises after the three metrics.
\<close>

definition render :: "'s engine \<Rightarrow> 's user_data list \<Rightarrow> selection \<Rightarrow> 's run" where
  "render eng tbl sel =
     (case sidebar eng tbl sel of
        Inl ended \<Rightarrow> ended
      | Inr shown \<Rightarrow>
          emit shown
            (on_result (filtered_row_count eng tbl sel) (\<lambda>n.
               if n = 0 then
                 ([Warning
                     ''No data matches the selected filters. Please adjust your selections.''],
                  Stopped)
               else
                 on_result (base_query eng tbl sel) (\<lambda>rows.
                   emit (kpis n rows)
                     (case date_range sel of
                        [start_date, end_date] \<Rightarrow>
                          emit [DataRange start_date end_date]
                            (and_then (tab1 eng tbl sel)
                               (and_then (tab2 eng tbl sel n)
                                  (and_then (tab3 eng tbl sel) (tab4 eng tbl sel))))
                      | _ \<Rightarrow> ([], Raised ''NameError''))))))"

section \<open>Sample inputs\<close>

text \<open>
  Small tables on which the theorems below are instantiated: three raw logs (one day
  of bob is spelt in two ways) with the reading of their date texts, a table for
  the rolling mean (the logons 5, 7, 9, 100 of one user on four consecutive days), a
  table with users of zero and of non-zero variance, and a loaded \<open>user_data\<close> table
  with a sidebar selection and an engine that rejects every WHERE clause with a stray
  apostrophe, the same table with one row of a fourth risk level, and a table with a user
  whose name holds an apostrophe.
\<close>

definition example_logon_df :: "activity_event list" where
  "example_logon_df =
     [(Some ''bob'', Some ''01/04/2010'', Some ''Logon''),
      (Some ''al'', Some ''01/04/2010'', Some ''Logon''),
      (Some ''bob'', Some ''01/04/2010'', Some ''Logoff''),
      (None, Some ''01/04/2010'', Some ''Logon''),
      (Some ''bob'', Some ''1/4/2010'', Some ''Logon'')]"

definition example_http_df :: "http_event list" where
  "example_http_df =
     [(Some ''al'', Some ''01/04/2010'', Some ''http://a.example'', Some 100, Some 250),
      (Some ''al'', Some ''01/04/2010'', Some ''http://b.example'', Some 50, None),
      (Some ''cy'', Some ''01/05/2010'', Some ''http://c.example'', Some 7, Some 9)]"

definition example_device_df :: "activity_event list" where
  "example_device_df =
     [(Some ''bob'', Some ''1/4/2010'', Some ''Connect'')]"

definition example_read_date :: "string \<Rightarrow> rawdate option" where
  "example_read_date =
     map_of [(''01/04/2010'', ((2010, 1, 4), None)),
             (''1/4/2010'', ((2010, 1, 4), None)),
             (''01/05/2010'', ((2010, 1, 5), None)),
             (''01/05/2010 21:30:00'', ((2010, 1, 5), Some (21, 30, 0)))]"

definition example_rolling_df :: "timestamp merged_row list" where
  "example_rolling_df =
     [\<lparr>user = ''bob'', date = ((2010, 1, 5), (0, 0, 0)), logon_count = 2, http_requests = 0,
        http_bytes_sent = 0, http_bytes_received = 0, device_activity_count = 1\<rparr>,
      \<lparr>user = ''al'', date = ((2010, 1, 7), (0, 0, 0)), logon_count = 100, http_requests = 0,
        http_bytes_sent = 0, http_bytes_received = 0, device_activity_count = 0\<rparr>,
      \<lparr>user = ''al'', date = ((2010, 1, 4), (0, 0, 0)), logon_count = 5, http_requests = 3,
        http_bytes_sent = 10, http_bytes_received = 20, device_activity_count = 0\<rparr>,
      \<lparr>user = ''bob'', date = ((2010, 1, 4), (0, 0, 0)), logon_count = 2, http_requests = 0,
        http_bytes_sent = 0, http_bytes_received = 0, device_activity_count = 0\<rparr>,
      \<lparr>user = ''al'', date = ((2010, 1, 6), (0, 0, 0)), logon_count = 9, http_requests = 0,
        http_bytes_sent = 0, http_bytes_received = 0, device_activity_count = 0\<rparr>,
      \<lparr>user = ''al'', date = ((2010, 1, 5), (0, 0, 0)), logon_count = 7, http_requests = 1,
        http_bytes_sent = 0, http_bytes_received = 0, device_activity_count = 0\<rparr>]"

definition example_spike_df :: "timestamp merged_row list" where
  "example_spike_df =
     [\<lparr>user = ''dee'', date = ((2010, 1, 4), (0, 0, 0)), logon_count = 1, http_requests = 4,
        http_bytes_sent = 0, http_bytes_received = 0, device_activity_count = 0\<rparr>,
      \<lparr>user = ''bob'', date = ((2010, 1, 4), (0, 0, 0)), logon_count = 2, http_requests = 0,
        http_bytes_sent = 0, http_bytes_received = 0, device_activity_count = 1\<rparr>,
      \<lparr>user = ''dee'', date = ((2010, 1, 5), (0, 0, 0)), logon_count = 3, http_requests = 4,
        http_bytes_sent = 0, http_bytes_received = 0, device_activity_count = 0\<rparr>,
      \<lparr>user = ''bob'', date = ((2010, 1, 5), (0, 0, 0)), logon_count = 2, http_requests = 0,
        http_bytes_sent = 0, http_bytes_received = 0, device_activity_count = 3\<rparr>,
      \<lparr>user = ''dee'', date = ((2010, 1, 6), (0, 0, 0)), logon_count = 5, http_requests = 4,
        http_bytes_sent = 0, http_bytes_received = 0, device_activity_count = 0\<rparr>]"

definition example_engine :: "bool option engine" where
  "example_engine =
     \<lparr>cell_is_true = flag_is_true,
      on_spliced_text = (\<lambda>conds tbl. Inl ''ParserException'')\<rparr>"

definition example_user_data :: "bool option user_data list" where
  "example_user_data =
     [\<lparr>col_date = (2010, 1, 4), col_user = ''al'', col_risk_level = ''Low'',
        col_risk_score = - 1 / 10, col_logon_spike = Some False, col_http_spike = None,
        col_device_spike = Some False\<rparr>,
      \<lparr>col_date = (2010, 1, 5), col_user = ''al'', col_risk_level = ''High'',
        col_risk_score = 2 / 10, col_logon_spike = Some True, col_http_spike = Some False,
        col_device_spike = Some False\<rparr>,
      \<lparr>col_date = (2010, 1, 5), col_user = ''bob'', col_risk_level = ''Medium'',
        col_risk_score = 1 / 20, col_logon_spike = Some False, col_http_spike = Some False,
        col_device_spike = Some True\<rparr>]"

definition example_selection :: selection where
  "example_selection =
     \<lparr>date_range = [(2010, 1, 4), (2010, 1, 5)], selected_users = [''al'', ''bob''],
      selected_risk_levels = [''Low'', ''Medium'', ''High''],
      filter_logon_spike = False, filter_http_spike = False, filter_device_spike = False\<rparr>"

definition example_unlisted_level :: "bool option user_data list" where
  "example_unlisted_level =
     example_user_data
     @ [\<lparr>col_date = (2010, 1, 5), col_user = ''bob'', col_risk_level = ''Critical'',
          col_risk_score = 3 / 10, col_logon_spike = Some False, col_http_spike = Some False,
          col_device_spike = Some False\<rparr>]"

definition example_apostrophe :: "bool option user_data list" where
  "example_apostrophe =
     [\<lparr>col_date = (2010, 1, 4), col_user = ''o'neil'', col_risk_level = ''Low'',
        col_risk_score = - 1 / 10, col_logon_spike = Some False, col_http_spike = Some False,
        col_device_spike = Some False\<rparr>]"

section \<open>Properties of the risk levels\<close>


lemma pyle_pylt_trans: "pyle a b \<Longrightarrow> pylt b c \<Longrightarrow> pylt a c"
  by (cases a; cases b; cases c) auto

lemma lerp_bounds:
  assumes "sorted s" "0 \<le> p" "p \<le> real (length s - 1)" "s \<noteq> []"
  shows "s ! nat \<lfloor>p\<rfloor> \<le> lerp s p"
    and "lerp s p \<le> s ! min (nat \<lfloor>p\<rfloor> + 1) (length s - 1)"
proof -
  let ?lo = "nat \<lfloor>p\<rfloor>" and ?hi = "min (nat \<lfloor>p\<rfloor> + 1) (length s - 1)"
  have lo: "real ?lo \<le> p" "p - real ?lo < 1" "p - real ?lo \<ge> 0"
    using assms(2) by linarith+
  have "?lo \<le> length s - 1" using assms(2,3) by linarith
  moreover have "0 < length s" using assms(4) by simp
  ultimately have lohi: "?lo \<le> ?hi" "?hi < length s" by linarith+
  have d: "s ! ?lo \<le> s ! ?hi" using assms(1) lohi by (simp add: sorted_nth_mono)
  have "0 \<le> (s ! ?hi - s ! ?lo) * (p - real ?lo)" using d lo by simp
  thus "s ! ?lo \<le> lerp s p" by (simp add: lerp_def Let_def)
  have "(s ! ?hi - s ! ?lo) * (p - real ?lo) \<le> (s ! ?hi - s ! ?lo) * 1"
    using d lo by (intro mult_left_mono) auto
  thus "lerp s p \<le> s ! ?hi" by (simp add: lerp_def Let_def)
qed

lemma lerp_mono:
  assumes "sorted s" "0 \<le> p" "p \<le> p'" "p' \<le> real (length s - 1)" "s \<noteq> []"
  shows "lerp s p \<le> lerp s p'"
proof (cases "nat \<lfloor>p\<rfloor> = nat \<lfloor>p'\<rfloor>")
  case True
  let ?lo = "nat \<lfloor>p\<rfloor>" and ?hi = "min (nat \<lfloor>p\<rfloor> + 1) (length s - 1)"
  have "?lo \<le> length s - 1" using assms by linarith
  moreover have "0 < length s" using assms(5) by simp
  ultimately have "?lo \<le> ?hi" "?hi < length s" by linarith+
  hence d: "s ! ?lo \<le> s ! ?hi" using assms(1) by (simp add: sorted_nth_mono)
  have "(s ! ?hi - s ! ?lo) * (p - real ?lo) \<le> (s ! ?hi - s ! ?lo) * (p' - real ?lo)"
    using d assms(3) by (intro mult_left_mono) auto
  then show ?thesis using True by (simp add: lerp_def Let_def)
next
  case False
  have "\<lfloor>p\<rfloor> \<le> \<lfloor>p'\<rfloor>" using assms(3) by (rule floor_mono)
  hence lt: "nat \<lfloor>p\<rfloor> < nat \<lfloor>p'\<rfloor>" using False by linarith
  have p': "0 \<le> p'" using assms by linarith
  have lo': "nat \<lfloor>p'\<rfloor> < length s" using assms(4,5) p' by (cases s) (auto, linarith)
  have "lerp s p \<le> s ! min (nat \<lfloor>p\<rfloor> + 1) (length s - 1)"
    using lerp_bounds(2)[OF assms(1,2) _ assms(5)] assms by linarith
  also have "\<dots> \<le> s ! nat \<lfloor>p'\<rfloor>"
  proof (intro sorted_nth_mono)
    show "min (nat \<lfloor>p\<rfloor> + 1) (length s - 1) \<le> nat \<lfloor>p'\<rfloor>" using lt by linarith
  qed (use lo' assms(1) in auto)
  also have "\<dots> \<le> lerp s p'"
    using lerp_bounds(1)[OF assms(1) p' assms(4,5)] .
  finally show ?thesis .
qed

lemma quantile_mono:
  assumes "xs \<noteq> []" "0 \<le> q" "q \<le> q'" "q' \<le> 1"
  shows "\<exists>a b. quantile xs q = Fin a \<and> quantile xs q' = Fin b \<and> a \<le> b"
proof -
  let ?s = "sort xs"
  have ne: "?s \<noteq> []" using assms(1) by (metis length_sort length_0_conv)
  have "lerp ?s (real (length ?s - 1) * q) \<le> lerp ?s (real (length ?s - 1) * q')"
    using assms ne by (intro lerp_mono) (auto simp: mult_left_mono mult_left_le)
  thus ?thesis using assms(1) by (simp add: quantile_def Let_def)
qed

lemma classify_risk_cases:
  assumes "q75 \<le> q95"
  shows "(classify_risk (Fin q75) (Fin q95) (Fin s) = ''Low'') = (s < q75)"
    and "(classify_risk (Fin q75) (Fin q95) (Fin s) = ''Medium'') = (q75 \<le> s \<and> s < q95)"
    and "(classify_risk (Fin q75) (Fin q95) (Fin s) = ''High'') = (q95 \<le> s)"
  using assms by (auto simp: classify_risk_def)

lemma count_filter_sort: "length (filter P (sort xs)) = length (filter P xs)"
  by (simp add: filter_sort)

lemma count_prefix:
  assumes "k \<le> length s" "\<And>j. j < k \<Longrightarrow> P (s ! j)"
  shows "k \<le> length (filter P s)"
proof -
  have "filter P (take k s) = take k s"
    using assms by (auto simp: filter_id_conv in_set_conv_nth)
  moreover have "filter P s = filter P (take k s) @ filter P (drop k s)"
    by (metis append_take_drop_id filter_append)
  ultimately show ?thesis using assms(1) by simp
qed

lemma count_suffix:
  assumes "\<And>j. k \<le> j \<Longrightarrow> j < length s \<Longrightarrow> P (s ! j)"
  shows "length s - k \<le> length (filter P s)"
proof -
  have "filter P (drop k s) = drop k s"
    using assms by (auto simp: filter_id_conv in_set_conv_nth)
  moreover have "filter P s = filter P (take k s) @ filter P (drop k s)"
    by (metis append_take_drop_id filter_append)
  ultimately show ?thesis by simp
qed

lemma quantile_is_percentile:
  assumes "xs \<noteq> []" "0 \<le> q" "q \<le> 1"
    and "v = lerp (sort xs) (real (length xs - 1) * q)"
  shows "quantile xs q = Fin v"
    and "v = (let s = sort xs; pos = real (length xs - 1) * q; lo = nat \<lfloor>pos\<rfloor>;
                  hi = min (lo + 1) (length xs - 1)
              in s ! lo + (s ! hi - s ! lo) * (pos - real lo))"
    and "sort xs ! nat \<lfloor>real (length xs - 1) * q\<rfloor> \<le> v"
    and "v \<le> sort xs ! min (nat \<lfloor>real (length xs - 1) * q\<rfloor> + 1) (length xs - 1)"
    and "q * real (length xs - 1) < real (length (filter (\<lambda>x. x \<le> v) xs))"
    and "(1 - q) * real (length xs - 1) \<le> real (length (filter (\<lambda>x. v \<le> x) xs))"
proof -
  define s where "s = sort xs"
  define n where "n = length xs"
  define p where "p = real (n - 1) * q"
  define lo where "lo = nat \<lfloor>p\<rfloor>"
  define hi where "hi = min (lo + 1) (n - 1)"
  have v_def: "v = lerp s p" using assms(4) by (simp add: s_def p_def n_def)
  have len: "length s = n" by (simp add: s_def n_def)
  have n: "0 < n" using assms(1) by (simp add: n_def)
  hence ne: "s \<noteq> []" using len by auto
  have p0: "0 \<le> p" using assms(2) by (simp add: p_def)
  have "real (n - 1) * q \<le> real (n - 1) * 1" using assms(3) by (intro mult_left_mono) auto
  hence p1: "p \<le> real (length s - 1)" by (simp add: p_def len)
  have srt: "sorted s" by (simp add: s_def)
  have b1: "s ! lo \<le> v" and b2: "v \<le> s ! hi"
    using lerp_bounds[OF srt p0 p1 ne] by (simp_all add: v_def lo_def hi_def len)
  have fl: "real lo \<le> p" "p < real lo + 1" using p0 unfolding lo_def by linarith+
  have "real lo \<le> real (n - 1)" using fl(1) p1 len by simp
  hence lo: "lo \<le> n - 1" by simp
  hence lo': "lo < n" using n by linarith
  have hi: "hi < n" "hi \<le> lo + 1" using n unfolding hi_def by linarith+
  have q: "quantile xs q = Fin v"
    using assms(1) by (simp add: quantile_def v_def s_def p_def n_def)
  have f: "v = s ! lo + (s ! hi - s ! lo) * (p - real lo)"
    by (simp add: v_def lerp_def Let_def lo_def hi_def len)
  have "Suc lo \<le> length (filter (\<lambda>x. x \<le> v) s)"
  proof (rule count_prefix)
    show "Suc lo \<le> length s" using lo' len by linarith
    fix j assume "j < Suc lo"
    hence "s ! j \<le> s ! lo" using lo' len by (intro sorted_nth_mono[OF srt]) auto
    thus "s ! j \<le> v" using b1 by linarith
  qed
  hence c1: "Suc lo \<le> length (filter (\<lambda>x. x \<le> v) xs)"
    unfolding s_def by (simp only: count_filter_sort)
  have le: "q * real (n - 1) < real (length (filter (\<lambda>x. x \<le> v) xs))"
  proof -
    have "q * real (n - 1) = p" by (simp add: p_def)
    also have "p < real (Suc lo)" using fl(2) by simp
    also have "\<dots> \<le> real (length (filter (\<lambda>x. x \<le> v) xs))" using c1 by (simp only: of_nat_le_iff)
    finally show ?thesis .
  qed
  have "length s - hi \<le> length (filter (\<lambda>x. v \<le> x) s)"
  proof (rule count_suffix)
    fix j assume "hi \<le> j" "j < length s"
    hence "s ! hi \<le> s ! j" by (intro sorted_nth_mono[OF srt]) auto
    thus "v \<le> s ! j" using b2 by linarith
  qed
  hence c2: "n - hi \<le> length (filter (\<lambda>x. v \<le> x) xs)"
    unfolding s_def len[unfolded s_def] by (simp only: count_filter_sort)
  have ge: "(1 - q) * real (n - 1) \<le> real (length (filter (\<lambda>x. v \<le> x) xs))"
  proof -
    have "(1 - q) * real (n - 1) = real (n - 1) - p" by (simp add: p_def algebra_simps)
    also have "\<dots> \<le> real (n - 1) - real lo" using fl(1) by simp
    also have "\<dots> = real (n - 1 - lo)" using lo by (simp add: of_nat_diff)
    also have "\<dots> \<le> real (n - hi)" using hi(2) by simp
    also have "\<dots> \<le> real (length (filter (\<lambda>x. v \<le> x) xs))" using c2 by (simp only: of_nat_le_iff)
    finally show ?thesis .
  qed
  show "quantile xs q = Fin v" by (rule q)
  show "v = (let s = sort xs; pos = real (length xs - 1) * q; lo = nat \<lfloor>pos\<rfloor>;
                  hi = min (lo + 1) (length xs - 1)
              in s ! lo + (s ! hi - s ! lo) * (pos - real lo))"
    using f unfolding Let_def s_def n_def p_def lo_def hi_def .
  show "sort xs ! nat \<lfloor>real (length xs - 1) * q\<rfloor> \<le> v"
    using b1 unfolding s_def n_def p_def lo_def .
  show "v \<le> sort xs ! min (nat \<lfloor>real (length xs - 1) * q\<rfloor> + 1) (length xs - 1)"
    using b2 unfolding s_def n_def p_def lo_def hi_def .
  show "q * real (length xs - 1) < real (length (filter (\<lambda>x. x \<le> v) xs))"
    using le unfolding n_def .
  show "(1 - q) * real (length xs - 1) \<le> real (length (filter (\<lambda>x. v \<le> x) xs))"
    using ge unfolding n_def .
qed

text \<open>
  C1. The two thresholds are the 75th and the 95th percentile of the whole column
  \<open>risk_score\<close>: each is the linear interpolation between two neighbouring values of the
  sorted column at the position \<open>(n - 1) * q\<close>, lies between these two values, has more
  than \<open>q * (n - 1)\<close> of the scores at or below it and at least \<open>(1 - q) * (n - 1)\<close>
  of them at or above it; the first is not above the second. The level of every row is
  decided by its own score and these two numbers alone: Low exactly when the score is
  below the 75th percentile, Medium exactly when it is at least the 75th and below the
  95th percentile, High exactly when it is at least the 95th percentile. The dashboard
  computes no level: whatever the conditions of its filter, the rows they select are
  rows of the loaded table, each with the level stored in it.
\<close>

theorem risk_level_by_global_quantiles:
  assumes "i < length scores"
  shows "(\<exists>q75 q95.
           low_thresh scores = Fin q75 \<and> high_thresh scores = Fin q95 \<and>
           q75 = (let s = sort scores; pos = real (length scores - 1) * 0.75;
                      lo = nat \<lfloor>pos\<rfloor>; hi = min (lo + 1) (length scores - 1)
                  in s ! lo + (s ! hi - s ! lo) * (pos - real lo)) \<and>
           q95 = (let s = sort scores; pos = real (length scores - 1) * 0.95;
                      lo = nat \<lfloor>pos\<rfloor>; hi = min (lo + 1) (length scores - 1)
                  in s ! lo + (s ! hi - s ! lo) * (pos - real lo)) \<and>
           sort scores ! nat \<lfloor>real (length scores - 1) * 0.75\<rfloor> \<le> q75 \<and>
           q75 \<le> sort scores
                   ! min (nat \<lfloor>real (length scores - 1) * 0.75\<rfloor> + 1) (length scores - 1) \<and>
           sort scores ! nat \<lfloor>real (length scores - 1) * 0.95\<rfloor> \<le> q95 \<and>
           q95 \<le> sort scores
                   ! min (nat \<lfloor>real (length scores - 1) * 0.95\<rfloor> + 1) (length scores - 1) \<and>
           0.75 * real (length scores - 1) < real (length (filter (\<lambda>x. x \<le> q75) scores)) \<and>
           0.25 * real (length scores - 1) \<le> real (length (filter (\<lambda>x. q75 \<le> x) scores)) \<and>
           0.95 * real (length scores - 1) < real (length (filter (\<lambda>x. x \<le> q95) scores)) \<and>
           0.05 * real (length scores - 1) \<le> real (length (filter (\<lambda>x. q95 \<le> x) scores)) \<and>
           q75 \<le> q95 \<and>
           risk_level scores ! i = classify_risk (Fin q75) (Fin q95) (Fin (scores ! i)) \<and>
           (risk_level scores ! i = ''Low'') = (scores ! i < q75) \<and>
           (risk_level scores ! i = ''Medium'') = (q75 \<le> scores ! i \<and> scores ! i < q95) \<and>
           (risk_level scores ! i = ''High'') = (q95 \<le> scores ! i)) \<and>
         set (select_where is_true conds tbl) \<subseteq> set tbl"
proof -
  have sub: "set (select_where is_true conds tbl) \<subseteq> set tbl"
    by (auto simp: select_where_def)
  from assms have ne: "scores \<noteq> []" by auto
  define a where "a = lerp (sort scores) (real (length scores - 1) * 0.75)"
  define b where "b = lerp (sort scores) (real (length scores - 1) * 0.95)"
  note pa = quantile_is_percentile[OF ne _ _ a_def]
  note pb = quantile_is_percentile[OF ne _ _ b_def]
  have a1: "quantile scores 0.75 = Fin a" by (rule pa(1)) simp_all
  have b1: "quantile scores 0.95 = Fin b" by (rule pb(1)) simp_all
  have a6: "(1 - 0.75) * real (length scores - 1)
              \<le> real (length (filter (\<lambda>x. a \<le> x) scores))" by (rule pa(6)) simp_all
  have b6: "(1 - 0.95) * real (length scores - 1)
              \<le> real (length (filter (\<lambda>x. b \<le> x) scores))" by (rule pb(6)) simp_all
  from quantile_mono[OF ne, of "0.75" "0.95"] a1 b1 have ab: "a \<le> b" by auto
  have th: "low_thresh scores = Fin a" "high_thresh scores = Fin b"
    using a1 b1 by (simp_all add: low_thresh_def high_thresh_def)
  have lvl: "risk_level scores ! i = classify_risk (Fin a) (Fin b) (Fin (scores ! i))"
    using assms th by (simp add: risk_level_def)
  note cases = classify_risk_cases[OF ab, of "scores ! i"]
  have "\<exists>q75 q95.
           low_thresh scores = Fin q75 \<and> high_thresh scores = Fin q95 \<and>
           q75 = (let s = sort scores; pos = real (length scores - 1) * 0.75;
                      lo = nat \<lfloor>pos\<rfloor>; hi = min (lo + 1) (length scores - 1)
                  in s ! lo + (s ! hi - s ! lo) * (pos - real lo)) \<and>
           q95 = (let s = sort scores; pos = real (length scores - 1) * 0.95;
                      lo = nat \<lfloor>pos\<rfloor>; hi = min (lo + 1) (length scores - 1)
                  in s ! lo + (s ! hi - s ! lo) * (pos - real lo)) \<and>
           sort scores ! nat \<lfloor>real (length scores - 1) * 0.75\<rfloor> \<le> q75 \<and>
           q75 \<le> sort scores
                   ! min (nat \<lfloor>real (length scores - 1) * 0.75\<rfloor> + 1) (length scores - 1) \<and>
           sort scores ! nat \<lfloor>real (length scores - 1) * 0.95\<rfloor> \<le> q95 \<and>
           q95 \<le> sort scores
                   ! min (nat \<lfloor>real (length scores - 1) * 0.95\<rfloor> + 1) (length scores - 1) \<and>
           0.75 * real (length scores - 1) < real (length (filter (\<lambda>x. x \<le> q75) scores)) \<and>
           0.25 * real (length scores - 1) \<le> real (length (filter (\<lambda>x. q75 \<le> x) scores)) \<and>
           0.95 * real (length scores - 1) < real (length (filter (\<lambda>x. x \<le> q95) scores)) \<and>
           0.05 * real (length scores - 1) \<le> real (length (filter (\<lambda>x. q95 \<le> x) scores)) \<and>
           q75 \<le> q95 \<and>
           risk_level scores ! i = classify_risk (Fin q75) (Fin q95) (Fin (scores ! i)) \<and>
           (risk_level scores ! i = ''Low'') = (scores ! i < q75) \<and>
           (risk_level scores ! i = ''Medium'') = (q75 \<le> scores ! i \<and> scores ! i < q95) \<and>
           (risk_level scores ! i = ''High'') = (q95 \<le> scores ! i)"
  proof (rule exI[of _ a], rule exI[of _ b], intro conjI)
    show "low_thresh scores = Fin a" "high_thresh scores = Fin b" by (rule th)+
    show "a = (let s = sort scores; pos = real (length scores - 1) * 0.75;
                      lo = nat \<lfloor>pos\<rfloor>; hi = min (lo + 1) (length scores - 1)
                  in s ! lo + (s ! hi - s ! lo) * (pos - real lo))"
      by (rule pa(2)) simp_all
    show "b = (let s = sort scores; pos = real (length scores - 1) * 0.95;
                      lo = nat \<lfloor>pos\<rfloor>; hi = min (lo + 1) (length scores - 1)
                  in s ! lo + (s ! hi - s ! lo) * (pos - real lo))"
      by (rule pb(2)) simp_all
    show "sort scores ! nat \<lfloor>real (length scores - 1) * 0.75\<rfloor> \<le> a"
      by (rule pa(3)) simp_all
    show "a \<le> sort scores
                   ! min (nat \<lfloor>real (length scores - 1) * 0.75\<rfloor> + 1) (length scores - 1)"
      by (rule pa(4)) simp_all
    show "sort scores ! nat \<lfloor>real (length scores - 1) * 0.95\<rfloor> \<le> b"
      by (rule pb(3)) simp_all
    show "b \<le> sort scores
                   ! min (nat \<lfloor>real (length scores - 1) * 0.95\<rfloor> + 1) (length scores - 1)"
      by (rule pb(4)) simp_all
    show "0.75 * real (length scores - 1) < real (length (filter (\<lambda>x. x \<le> a) scores))"
      by (rule pa(5)) simp_all
    show "0.25 * real (length scores - 1) \<le> real (length (filter (\<lambda>x. a \<le> x) scores))"
      using a6 by simp
    show "0.95 * real (length scores - 1) < real (length (filter (\<lambda>x. x \<le> b) scores))"
      by (rule pb(5)) simp_all
    show "0.05 * real (length scores - 1) \<le> real (length (filter (\<lambda>x. b \<le> x) scores))"
      using b6 by simp
    show "a \<le> b" by (rule ab)
    show "risk_level scores ! i = classify_risk (Fin a) (Fin b) (Fin (scores ! i))" by (rule lvl)
    show "(risk_level scores ! i = ''Low'') = (scores ! i < a)"
      unfolding lvl by (rule cases(1))
    show "(risk_level scores ! i = ''Medium'') = (a \<le> scores ! i \<and> scores ! i < b)"
      unfolding lvl by (rule cases(2))
    show "(risk_level scores ! i = ''High'') = (b \<le> scores ! i)"
      unfolding lvl by (rule cases(3))
  qed
  with sub show ?thesis by (rule conjI[rotated])
qed



theorem risk_level_by_global_quantiles_witness:
  "low_thresh [3, 1, 2, 5, 4] = Fin 4 \<and> high_thresh [3, 1, 2, 5, 4] = Fin 4.8 \<and>
   risk_level [3, 1, 2, 5, 4] ! 3 = ''High'' \<and> risk_level [3, 1, 2, 5, 4] ! 0 = ''Low'' \<and>
   risk_level [3, 1, 2, 5, 4] ! 4 = ''Medium'' \<and> risk_level [3, 1, 2, 5, 4] ! 2 = ''Low''"
proof -
  let ?xs = "[3, 1, 2, 5, 4] :: real list"
  have q: "low_thresh ?xs = Fin 4" "high_thresh ?xs = Fin 4.8"
    by (simp_all add: low_thresh_def high_thresh_def quantile_def lerp_def)
  have level: "(risk_level ?xs ! i = ''Low'') = (?xs ! i < 4) \<and>
               (risk_level ?xs ! i = ''Medium'') = (4 \<le> ?xs ! i \<and> ?xs ! i < 4.8) \<and>
               (risk_level ?xs ! i = ''High'') = (4.8 \<le> ?xs ! i)"
    if i: "i < length ?xs" for i
  proof -
    from risk_level_by_global_quantiles[OF i, where is_true = flag_is_true and conds = "[]"
        and tbl = "[]"]
    obtain q75 q95 where
      t: "low_thresh ?xs = Fin q75" "high_thresh ?xs = Fin q95"
      and l: "(risk_level ?xs ! i = ''Low'') = (?xs ! i < q75)"
        "(risk_level ?xs ! i = ''Medium'') = (q75 \<le> ?xs ! i \<and> ?xs ! i < q95)"
        "(risk_level ?xs ! i = ''High'') = (q95 \<le> ?xs ! i)"
      by (elim conjE exE) (rule that)
    from t q have "q75 = 4" "q95 = 4.8" by simp_all
    with l show ?thesis by simp
  qed
  have "risk_level ?xs ! 3 = ''High''" using level[of 3] by simp
  moreover have "risk_level ?xs ! 0 = ''Low''" using level[of 0] by simp
  moreover have "risk_level ?xs ! 4 = ''Medium''" using level[of 4] by simp
  moreover have "risk_level ?xs ! 2 = ''Low''" using level[of 2] by simp
  ultimately show ?thesis using q by simp
qed

text \<open>
  C3. \<open>classify_risk\<close> is monotonic for any pair of thresholds: a score that is not
  above another gets a level that is not above the other's, in the order
  Low, Medium, High. Hence in the scored table the level never decreases as the score
  grows.
\<close>

theorem classify_risk_monotonic:
  shows "(pyle s1 s2 \<longrightarrow>
            risk_level_rank (classify_risk low high s1)
              \<le> risk_level_rank (classify_risk low high s2)) \<and>
         (i < length scores \<and> j < length scores \<and> scores ! i \<le> scores ! j \<longrightarrow>
            risk_level_rank (risk_level scores ! i) \<le> risk_level_rank (risk_level scores ! j))"
proof -
  have m: "risk_level_rank (classify_risk lo hi a) \<le> risk_level_rank (classify_risk lo hi b)"
    if "pyle a b" for lo hi a b
    using that by (auto simp: classify_risk_def risk_level_rank_def dest: pyle_pylt_trans)
  show ?thesis
    by (auto simp: risk_level_def intro!: m)
qed

theorem classify_risk_monotonic_witness:
  "pyle (Fin 1) (Fin 2) \<and>
   risk_level_rank (classify_risk (Fin 1.5) (Fin 3) (Fin 1)) = 1 \<and>
   risk_level_rank (classify_risk (Fin 1.5) (Fin 3) (Fin 2)) = 2 \<and>
   (0::nat) < length [3, 1, 2, 5, 4 :: real] \<and> (3::nat) < length [3, 1, 2, 5, 4 :: real] \<and>
   [3, 1, 2, 5, 4 :: real] ! 0 \<le> [3, 1, 2, 5, 4] ! 3 \<and>
   risk_level_rank (risk_level [3, 1, 2, 5, 4] ! 0)
     \<le> risk_level_rank (risk_level [3, 1, 2, 5, 4] ! 3)"
  using classify_risk_monotonic[of "Fin 1" "Fin 2" "Fin 1.5" "Fin 3" 0 "[3, 1, 2, 5, 4]" 3]
  by (simp add: classify_risk_def risk_level_rank_def)

section \<open>Properties of the outer join\<close>

lemma groupby_keys: "map fst (groupby by df) = sort (remdups (List.map_filter by df))"
  by (simp add: groupby_def comp_def)

lemma distinct_groupby: "distinct (map fst (groupby by df))"
  by (simp add: groupby_keys)

lemma distinct_logon_agg: "distinct (map fst (logon_agg df))"
proof -
  have "map fst (logon_agg df) = map fst (groupby (\<lambda>(u, d, activity). by_user_date u d) df)"
    by (simp add: logon_agg_def comp_def case_prod_unfold)
  thus ?thesis by (simp add: distinct_groupby)
qed

lemma distinct_http_agg: "distinct (map fst (http_agg df))"
proof -
  have "map fst (http_agg df) =
        map fst (groupby (\<lambda>(u, d, url, bytes_sent, bytes_received). by_user_date u d) df)"
    by (simp add: http_agg_def comp_def case_prod_unfold)
  thus ?thesis by (simp add: distinct_groupby)
qed

lemma distinct_device_agg: "distinct (map fst (device_agg df))"
proof -
  have "map fst (device_agg df) = map fst (groupby (\<lambda>(u, d, activity). by_user_date u d) df)"
    by (simp add: device_agg_def comp_def case_prod_unfold)
  thus ?thesis by (simp add: distinct_groupby)
qed

lemma matches_distinct:
  "distinct (map fst xs) \<Longrightarrow>
   map snd (filter (\<lambda>l. fst l = k) xs) = (case map_of xs k of None \<Rightarrow> [] | Some v \<Rightarrow> [v])"
proof (induction xs)
  case Nil
  then show ?case by simp
next
  case (Cons x xs)
  show ?case
  proof (cases "fst x = k")
    case True
    with Cons.prems have "k \<notin> fst ` set xs" by auto
    hence "filter (\<lambda>l. fst l = k) xs = []" by (auto simp: filter_empty_conv)
    with True show ?thesis by (cases x) auto
  next
    case False
    with Cons show ?thesis by (cases x) auto
  qed
qed

lemma side_distinct:
  assumes "distinct (map fst xs)"
  shows "(let ms = map snd (filter (\<lambda>l. fst l = k) xs) in if ms = [] then [None] else map Some ms)
         = [map_of xs k]"
  using matches_distinct[OF assms, of k] by (auto split: option.splits)

lemma merge_outer_distinct:
  assumes "distinct (map fst left)" "distinct (map fst right)"
  shows "merge_outer left right =
         map (\<lambda>k. (k, map_of left k, map_of right k))
           (sort (remdups (map fst left @ map fst right)))"
proof -
  have "(\<lambda>k. let ls = map snd (filter (\<lambda>l. fst l = k) left);
                 rs = map snd (filter (\<lambda>r. fst r = k) right)
             in List.product [k]
                  (List.product (if ls = [] then [None] else map Some ls)
                                (if rs = [] then [None] else map Some rs)))
        = (\<lambda>k. [(k, map_of left k, map_of right k)])"
  proof
    fix k
    show "(let ls = map snd (filter (\<lambda>l. fst l = k) left);
               rs = map snd (filter (\<lambda>r. fst r = k) right)
           in List.product [k]
                (List.product (if ls = [] then [None] else map Some ls)
                              (if rs = [] then [None] else map Some rs)))
          = [(k, map_of left k, map_of right k)]"
      using side_distinct[OF assms(1), of k] side_distinct[OF assms(2), of k]
      by (simp add: Let_def)
  qed
  thus ?thesis
    unfolding merge_outer_def by (simp add: concat_map_singleton)
qed

lemma keys_merge_outer:
  assumes "distinct (map fst left)" "distinct (map fst right)"
  shows "map fst (merge_outer left right) = sort (remdups (map fst left @ map fst right))"
  by (simp add: merge_outer_distinct[OF assms] comp_def)

lemma distinct_merge_outer:
  assumes "distinct (map fst left)" "distinct (map fst right)"
  shows "distinct (map fst (merge_outer left right))"
  by (simp add: keys_merge_outer[OF assms])

lemma length_merge_outer:
  assumes "distinct (map fst left)" "distinct (map fst right)"
  shows "length (merge_outer left right) = card (fst ` set left \<union> fst ` set right)"
proof -
  have "length (merge_outer left right) = length (map fst (merge_outer left right))" by simp
  also have "\<dots> = length (remdups (map fst left @ map fst right))"
    by (simp add: keys_merge_outer[OF assms])
  also have "\<dots> = card (set (map fst left @ map fst right))"
    by (simp only: length_remdups_card_conv)
  finally show ?thesis by simp
qed

lemma set_keys_merge_outer:
  assumes "distinct (map fst left)" "distinct (map fst right)"
  shows "fst ` set (merge_outer left right) = fst ` set left \<union> fst ` set right"
proof -
  have "fst ` set (merge_outer left right) = set (map fst (merge_outer left right))" by simp
  also have "\<dots> = fst ` set left \<union> fst ` set right"
    by (simp only: keys_merge_outer[OF assms]) simp
  finally show ?thesis .
qed

lemma map_of_merge_outer:
  assumes "distinct (map fst left)" "distinct (map fst right)"
  shows "map_of (merge_outer left right) k =
         (if k \<in> fst ` set left \<union> fst ` set right then Some (map_of left k, map_of right k)
          else None)"
  by (simp add: merge_outer_distinct[OF assms] map_of_map_restrict restrict_map_def)

lemma key_fillna: "(user (fillna row), date (fillna row)) = fst row"
  by (cases row) (simp add: fillna_def Let_def)

lemma keys_merged_df:
  "map (\<lambda>r. (user r, date r)) (merged_df logon_df http_df device_df) =
   sort (remdups (map fst (merge_outer (logon_agg logon_df) (http_agg http_df))
                  @ map fst (device_agg device_df)))"
proof -
  have d1: "distinct (map fst (merge_outer (logon_agg logon_df) (http_agg http_df)))"
    by (rule distinct_merge_outer[OF distinct_logon_agg distinct_http_agg])
  have "map (\<lambda>r. (user r, date r)) (merged_df logon_df http_df device_df)
        = map fst (merge_outer (merge_outer (logon_agg logon_df) (http_agg http_df))
                     (device_agg device_df))"
    by (simp add: merged_df_def comp_def key_fillna)
  thus ?thesis by (simp only: keys_merge_outer[OF d1 distinct_device_agg])
qed

lemma set_keys_merged_df:
  "(\<lambda>r. (user r, date r)) ` set (merged_df logon_df http_df device_df) =
   fst ` set (logon_agg logon_df) \<union> fst ` set (http_agg http_df)
     \<union> fst ` set (device_agg device_df)"
proof -
  have "(\<lambda>r. (user r, date r)) ` set (merged_df logon_df http_df device_df)
        = set (map (\<lambda>r. (user r, date r)) (merged_df logon_df http_df device_df))"
    by simp
  also have "\<dots> = fst ` set (merge_outer (logon_agg logon_df) (http_agg http_df))
                   \<union> fst ` set (device_agg device_df)"
    by (simp only: keys_merged_df) simp
  finally show ?thesis
    by (simp only: set_keys_merge_outer[OF distinct_logon_agg distinct_http_agg])
qed

lemma length_merged_df:
  "length (merged_df logon_df http_df device_df) =
   card (fst ` set (logon_agg logon_df) \<union> fst ` set (http_agg http_df)
           \<union> fst ` set (device_agg device_df))"
proof -
  have "length (merged_df logon_df http_df device_df)
        = length (map (\<lambda>r. (user r, date r)) (merged_df logon_df http_df device_df))"
    by simp
  also have "\<dots> = card (set (map (\<lambda>r. (user r, date r)) (merged_df logon_df http_df device_df)))"
    by (simp only: keys_merged_df length_sort set_sort length_remdups_card_conv set_remdups)
  finally show ?thesis by (simp only: set_map set_keys_merged_df)
qed

lemma row_merged_df:
  assumes "r \<in> set (merged_df logon_df http_df device_df)"
  shows "r = fillna ((user r, date r),
               (if (user r, date r) \<in> fst ` set (logon_agg logon_df) \<union> fst ` set (http_agg http_df)
                then Some (map_of (logon_agg logon_df) (user r, date r),
                           map_of (http_agg http_df) (user r, date r))
                else None),
               map_of (device_agg device_df) (user r, date r))"
proof -
  have d1: "distinct (map fst (merge_outer (logon_agg logon_df) (http_agg http_df)))"
    by (rule distinct_merge_outer[OF distinct_logon_agg distinct_http_agg])
  from assms obtain k where
    r: "r = fillna (k, map_of (merge_outer (logon_agg logon_df) (http_agg http_df)) k,
                    map_of (device_agg device_df) k)"
    by (auto simp: merged_df_def merge_outer_distinct[OF d1 distinct_device_agg])
  hence k: "(user r, date r) = k" by (simp add: key_fillna)
  show ?thesis
    using r unfolding k
    by (simp only: map_of_merge_outer[OF distinct_logon_agg distinct_http_agg])
qed

lemma fillna_logon_count:
  "logon_count (fillna (k, lh, d)) =
     (case (case lh of Some (Some c, _) \<Rightarrow> Some c | _ \<Rightarrow> None) of None \<Rightarrow> 0 | Some c \<Rightarrow> real c)"
  by (simp add: fillna_def Let_def)

lemma fillna_http:
  "http_requests (fillna (k, lh, d)) =
     (case (case lh of Some (_, Some t) \<Rightarrow> Some t | _ \<Rightarrow> None) of
        None \<Rightarrow> 0 | Some (n, s, b) \<Rightarrow> real n)"
  "http_bytes_sent (fillna (k, lh, d)) =
     (case (case lh of Some (_, Some t) \<Rightarrow> Some t | _ \<Rightarrow> None) of
        None \<Rightarrow> 0 | Some (n, s, b) \<Rightarrow> s)"
  "http_bytes_received (fillna (k, lh, d)) =
     (case (case lh of Some (_, Some t) \<Rightarrow> Some t | _ \<Rightarrow> None) of
        None \<Rightarrow> 0 | Some (n, s, b) \<Rightarrow> b)"
  by (simp_all add: fillna_def Let_def)

lemma fillna_device:
  "device_activity_count (fillna (k, lh, d)) = (case d of None \<Rightarrow> 0 | Some c \<Rightarrow> real c)"
  by (simp add: fillna_def Let_def)

lemma length_distinct_keys: "distinct (map fst xs) \<Longrightarrow> length xs = card (fst ` set xs)"
  using distinct_card[of "map fst xs"] by simp

text \<open>
  C4. The key of a row is its user and the text of its date cell, as the joins compare
  them. After the two outer joins and \<open>fillna(0)\<close>: no two rows of the merged table
  share their (user, date); every measure of a source equals that source's aggregate
  for the row's (user, date) and is 0 when the source has no row for it; and the table has
  at least as many rows as the largest of the three aggregates and at most as many as the
  three together.
\<close>

theorem merged_df_unique_key_zero_fill_row_count:
  "distinct (map (\<lambda>r. (user r, date r)) (merged_df logon_df http_df device_df)) \<and>
   (\<forall>r \<in> set (merged_df logon_df http_df device_df).
      (case map_of (logon_agg logon_df) (user r, date r) of
         None \<Rightarrow> logon_count r = 0
       | Some c \<Rightarrow> logon_count r = real c) \<and>
      (case map_of (http_agg http_df) (user r, date r) of
         None \<Rightarrow> http_requests r = 0 \<and> http_bytes_sent r = 0 \<and> http_bytes_received r = 0
       | Some (n, s, b) \<Rightarrow>
           http_requests r = real n \<and> http_bytes_sent r = s \<and> http_bytes_received r = b) \<and>
      (case map_of (device_agg device_df) (user r, date r) of
         None \<Rightarrow> device_activity_count r = 0
       | Some c \<Rightarrow> device_activity_count r = real c)) \<and>
   max (length (logon_agg logon_df))
       (max (length (http_agg http_df)) (length (device_agg device_df)))
     \<le> length (merged_df logon_df http_df device_df) \<and>
   length (merged_df logon_df http_df device_df)
     \<le> length (logon_agg logon_df) + length (http_agg http_df) + length (device_agg device_df)"
proof (intro conjI ballI)
  show "distinct (map (\<lambda>r. (user r, date r)) (merged_df logon_df http_df device_df))"
    by (simp only: keys_merged_df) simp
next
  fix r assume r: "r \<in> set (merged_df logon_df http_df device_df)"
  let ?k = "(user r, date r)"
  let ?lh = "if ?k \<in> fst ` set (logon_agg logon_df) \<union> fst ` set (http_agg http_df)
             then Some (map_of (logon_agg logon_df) ?k, map_of (http_agg http_df) ?k)
             else None"
  note row = row_merged_df[OF r]
  have nl: "map_of (logon_agg logon_df) ?k = None" if "?k \<notin> fst ` set (logon_agg logon_df)"
    using that by (simp add: map_of_eq_None_iff)
  have nh: "map_of (http_agg http_df) ?k = None" if "?k \<notin> fst ` set (http_agg http_df)"
    using that by (simp add: map_of_eq_None_iff)
  have l: "(case ?lh of Some (Some c, _) \<Rightarrow> Some c | _ \<Rightarrow> None) = map_of (logon_agg logon_df) ?k"
    using nl by (auto split: option.splits)
  have h: "(case ?lh of Some (_, Some t) \<Rightarrow> Some t | _ \<Rightarrow> None) = map_of (http_agg http_df) ?k"
    using nh by (auto split: option.splits)
  have "logon_count r = (case map_of (logon_agg logon_df) ?k of None \<Rightarrow> 0 | Some c \<Rightarrow> real c)"
    using arg_cong[OF row, of logon_count] by (simp only: fillna_logon_count l)
  thus "case map_of (logon_agg logon_df) ?k of
          None \<Rightarrow> logon_count r = 0 | Some c \<Rightarrow> logon_count r = real c"
    by (simp split: option.splits)
  have "http_requests r = (case map_of (http_agg http_df) ?k of None \<Rightarrow> 0 | Some (n, s, b) \<Rightarrow> real n)"
       "http_bytes_sent r = (case map_of (http_agg http_df) ?k of None \<Rightarrow> 0 | Some (n, s, b) \<Rightarrow> s)"
       "http_bytes_received r = (case map_of (http_agg http_df) ?k of None \<Rightarrow> 0 | Some (n, s, b) \<Rightarrow> b)"
    using arg_cong[OF row, of http_requests] arg_cong[OF row, of http_bytes_sent]
      arg_cong[OF row, of http_bytes_received]
    by (simp_all only: fillna_http h)
  thus "case map_of (http_agg http_df) ?k of
          None \<Rightarrow> http_requests r = 0 \<and> http_bytes_sent r = 0 \<and> http_bytes_received r = 0
        | Some (n, s, b) \<Rightarrow>
            http_requests r = real n \<and> http_bytes_sent r = s \<and> http_bytes_received r = b"
    by (simp split: option.splits)
  have "device_activity_count r =
        (case map_of (device_agg device_df) ?k of None \<Rightarrow> 0 | Some c \<Rightarrow> real c)"
    using arg_cong[OF row, of device_activity_count] by (simp only: fillna_device)
  thus "case map_of (device_agg device_df) ?k of
          None \<Rightarrow> device_activity_count r = 0 | Some c \<Rightarrow> device_activity_count r = real c"
    by (simp split: option.splits)
next
  let ?L = "fst ` set (logon_agg logon_df)" and ?H = "fst ` set (http_agg http_df)"
    and ?D = "fst ` set (device_agg device_df)"
  have fin: "finite (?L \<union> ?H \<union> ?D)" by simp
  have "card ?L \<le> card (?L \<union> ?H \<union> ?D)" "card ?H \<le> card (?L \<union> ?H \<union> ?D)"
       "card ?D \<le> card (?L \<union> ?H \<union> ?D)"
    by (auto intro!: card_mono)
  thus "max (length (logon_agg logon_df))
          (max (length (http_agg http_df)) (length (device_agg device_df)))
        \<le> length (merged_df logon_df http_df device_df)"
    by (simp add: length_merged_df length_distinct_keys[OF distinct_logon_agg]
        length_distinct_keys[OF distinct_http_agg] length_distinct_keys[OF distinct_device_agg])
next
  let ?L = "fst ` set (logon_agg logon_df)" and ?H = "fst ` set (http_agg http_df)"
    and ?D = "fst ` set (device_agg device_df)"
  have "card (?L \<union> ?H \<union> ?D) \<le> card (?L \<union> ?H) + card ?D" by (rule card_Un_le)
  also have "\<dots> \<le> card ?L + card ?H + card ?D" using card_Un_le[of ?L ?H] by simp
  finally show "length (merged_df logon_df http_df device_df)
     \<le> length (logon_agg logon_df) + length (http_agg http_df) + length (device_agg device_df)"
    by (simp add: length_merged_df length_distinct_keys[OF distinct_logon_agg]
        length_distinct_keys[OF distinct_http_agg] length_distinct_keys[OF distinct_device_agg])
qed

lemma ex_logon_agg: "logon_agg example_logon_df =
   [((''al'', ''01/04/2010''), 1), ((''bob'', ''01/04/2010''), 2), ((''bob'', ''1/4/2010''), 1)]"
  by (simp add: logon_agg_def example_logon_df_def groupby_def agg_count_def by_user_date_def
      List.map_filter_def)

lemma ex_http_agg: "http_agg example_http_df =
   [((''al'', ''01/04/2010''), 2, 150, 250), ((''cy'', ''01/05/2010''), 1, 7, 9)]"
  by (simp add: http_agg_def example_http_df_def groupby_def agg_count_def agg_sum_def by_user_date_def
      List.map_filter_def)

lemma ex_device_agg: "device_agg example_device_df = [((''bob'', ''1/4/2010''), 1)]"
  by (simp add: device_agg_def example_device_df_def groupby_def agg_count_def by_user_date_def
      List.map_filter_def)

lemma ex_merged: "merged_df example_logon_df example_http_df example_device_df =
  [\<lparr>user = ''al'', date = ''01/04/2010'', logon_count = 1, http_requests = 2,
     http_bytes_sent = 150, http_bytes_received = 250, device_activity_count = 0\<rparr>,
   \<lparr>user = ''bob'', date = ''01/04/2010'', logon_count = 2, http_requests = 0,
     http_bytes_sent = 0, http_bytes_received = 0, device_activity_count = 0\<rparr>,
   \<lparr>user = ''bob'', date = ''1/4/2010'', logon_count = 1, http_requests = 0,
     http_bytes_sent = 0, http_bytes_received = 0, device_activity_count = 1\<rparr>,
   \<lparr>user = ''cy'', date = ''01/05/2010'', logon_count = 0, http_requests = 1,
     http_bytes_sent = 7, http_bytes_received = 9, device_activity_count = 0\<rparr>]"
  by (simp add: merged_df_def ex_logon_agg ex_http_agg ex_device_agg merge_outer_def fillna_def)

theorem merged_df_unique_key_zero_fill_row_count_witness:
  "distinct (map (\<lambda>r. (user r, date r))
     (merged_df example_logon_df example_http_df example_device_df)) \<and>
   user (merged_df example_logon_df example_http_df example_device_df ! 3) = ''cy'' \<and>
   logon_count (merged_df example_logon_df example_http_df example_device_df ! 3) = 0 \<and>
   http_requests (merged_df example_logon_df example_http_df example_device_df ! 3) = 1 \<and>
   device_activity_count (merged_df example_logon_df example_http_df example_device_df ! 3) = 0 \<and>
   length (logon_agg example_logon_df) = 3 \<and> length (http_agg example_http_df) = 2 \<and>
   length (device_agg example_device_df) = 1 \<and>
   length (merged_df example_logon_df example_http_df example_device_df) = 4 \<and>
   map (\<lambda>r. (user r, date r)) (merged_df example_logon_df example_http_df example_device_df)
     = [(''al'', ''01/04/2010''), (''bob'', ''01/04/2010''), (''bob'', ''1/4/2010''),
        (''cy'', ''01/05/2010'')]"
proof -
  let ?m = "merged_df example_logon_df example_http_df example_device_df"
  have ks: "map (\<lambda>r. (user r, date r)) ?m
     = [(''al'', ''01/04/2010''), (''bob'', ''01/04/2010''), (''bob'', ''1/4/2010''),
        (''cy'', ''01/05/2010'')]"
    by (simp add: ex_merged)
  have r: "?m ! 3 \<in> set ?m" by (simp add: ex_merged)
  have k: "(user (?m ! 3), date (?m ! 3)) = (''cy'', ''01/05/2010'')"
    by (simp add: ex_merged)
  have l: "map_of (logon_agg example_logon_df) (''cy'', ''01/05/2010'') = None"
    "map_of (http_agg example_http_df) (''cy'', ''01/05/2010'') = Some (1, 7, 9)"
    "map_of (device_agg example_device_df) (''cy'', ''01/05/2010'') = None"
    by (simp_all add: ex_logon_agg ex_http_agg ex_device_agg)
  note inst = merged_df_unique_key_zero_fill_row_count[of example_logon_df example_http_df
      example_device_df]
  from inst have d: "distinct (map (\<lambda>r. (user r, date r)) ?m)" by blast
  from inst r have
    "case map_of (logon_agg example_logon_df) (user (?m ! 3), date (?m ! 3)) of
       None \<Rightarrow> logon_count (?m ! 3) = 0 | Some c \<Rightarrow> logon_count (?m ! 3) = real c"
    "case map_of (http_agg example_http_df) (user (?m ! 3), date (?m ! 3)) of
       None \<Rightarrow> http_requests (?m ! 3) = 0 \<and> http_bytes_sent (?m ! 3) = 0 \<and>
              http_bytes_received (?m ! 3) = 0
     | Some (n, s, b) \<Rightarrow> http_requests (?m ! 3) = real n \<and> http_bytes_sent (?m ! 3) = s \<and>
              http_bytes_received (?m ! 3) = b"
    "case map_of (device_agg example_device_df) (user (?m ! 3), date (?m ! 3)) of
       None \<Rightarrow> device_activity_count (?m ! 3) = 0
     | Some c \<Rightarrow> device_activity_count (?m ! 3) = real c"
    by blast+
  hence v: "logon_count (?m ! 3) = 0" "http_requests (?m ! 3) = 1"
    "device_activity_count (?m ! 3) = 0"
    unfolding k l by simp_all
  have u: "user (?m ! 3) = ''cy''" by (simp add: ex_merged)
  have n: "length (logon_agg example_logon_df) = 3" "length (http_agg example_http_df) = 2"
    "length (device_agg example_device_df) = 1" "length ?m = 4"
    by (simp_all add: ex_logon_agg ex_http_agg ex_device_agg ex_merged)
  from d u v n ks show ?thesis by (intro conjI)
qed

section \<open>Properties of the calendar columns\<close>

lemma those_map_Some:
  assumes "\<And>x. x \<in> set xs \<Longrightarrow> f x = Some (g x)"
  shows "those (map f xs) = Some (map g xs)"
  using assms by (induction xs) auto

text \<open>
  C10. When no \<open>date\<close> cell of the merged table carries a time of day, the conversion
  succeeds and every row of the converted table has \<open>hour = 0\<close>, \<open>minute = 0\<close> and
  \<open>is_off_hours = 1\<close>: the column is constant.
\<close>

theorem date_only_rows_are_off_hours:
  assumes "\<forall>r \<in> set df. \<exists>d. read_date (date r) = Some (d, None)"
  shows "\<exists>t. with_datetime read_date df = Some t \<and> length t = length df \<and>
           (\<forall>r \<in> set t. hour r = 0 \<and> minute r = 0 \<and> is_off_hours r = 1)"
proof -
  let ?g = "\<lambda>r. \<lparr>user = user r, date = (fst (the (read_date (date r))), (0, 0, 0)),
                 logon_count = logon_count r, http_requests = http_requests r,
                 http_bytes_sent = http_bytes_sent r,
                 http_bytes_received = http_bytes_received r,
                 device_activity_count = device_activity_count r\<rparr>"
  have "with_datetime read_date df = Some (map ?g df)"
    unfolding with_datetime_def
  proof (rule those_map_Some)
    fix r assume "r \<in> set df"
    with assms obtain d where "read_date (date r) = Some (d, None)" by blast
    thus "(case read_date (date r) of
             None \<Rightarrow> None
           | Some d \<Rightarrow>
               Some \<lparr>user = user r, date = to_datetime d,
                     logon_count = logon_count r, http_requests = http_requests r,
                     http_bytes_sent = http_bytes_sent r,
                     http_bytes_received = http_bytes_received r,
                     device_activity_count = device_activity_count r\<rparr>) = Some (?g r)"
      by (simp add: to_datetime_def)
  qed
  moreover have "\<forall>r \<in> set (map ?g df). hour r = 0 \<and> minute r = 0 \<and> is_off_hours r = 1"
    by (simp add: hour_def minute_def is_off_hours_def)
  ultimately show ?thesis by simp
qed

theorem date_only_rows_are_off_hours_witness:
  "(\<exists>t. with_datetime example_read_date
          (merged_df example_logon_df example_http_df example_device_df) = Some t \<and>
        length t = 4 \<and> hour (t ! 0) = 0 \<and> minute (t ! 0) = 0 \<and> is_off_hours (t ! 0) = 1 \<and>
        date (t ! 1) = date (t ! 2)) \<and>
   with_datetime (\<lambda>text. None)
     (merged_df example_logon_df example_http_df example_device_df) = None"
proof -
  let ?m = "merged_df example_logon_df example_http_df example_device_df"
  have d: "\<forall>r \<in> set ?m. \<exists>d. example_read_date (date r) = Some (d, None)"
    by (simp add: ex_merged example_read_date_def)
  from date_only_rows_are_off_hours[OF d] obtain t where
    t: "with_datetime example_read_date ?m = Some t" "length t = length ?m"
       "\<forall>r \<in> set t. hour r = 0 \<and> minute r = 0 \<and> is_off_hours r = 1"
    by blast
  have n: "length t = 4" using t(2) by (simp add: ex_merged)
  hence "t ! 0 \<in> set t" by simp
  with t(3) have h: "hour (t ! 0) = 0 \<and> minute (t ! 0) = 0 \<and> is_off_hours (t ! 0) = 1" by blast
  have "with_datetime example_read_date ?m = Some t" by (rule t(1))
  hence "date (t ! 1) = date (t ! 2)"
    by (auto simp: with_datetime_def ex_merged example_read_date_def to_datetime_def)
  moreover have "with_datetime (\<lambda>text. None) ?m = None"
    by (simp add: with_datetime_def ex_merged)
  ultimately show ?thesis using t(1) n h by blast
qed

section \<open>Properties of the spike columns\<close>

lemma baseline_of_member:
  assumes "r \<in> set df"
  shows "baseline_of df r =
         (let g = filter (\<lambda>x. user x = user r) df
          in ((agg_mean (map logon_count g), agg_std (map logon_count g)),
              (agg_mean (map http_requests g), agg_std (map http_requests g)),
              (agg_mean (map device_activity_count g),
               agg_std (map device_activity_count g))))"
proof -
  have "user r \<in> set (sort (remdups (map user df)))" using assms by simp
  thus ?thesis
    by (simp add: baseline_of_def user_baseline_def map_of_map_restrict Let_def)
qed

lemma agg_std_zero:
  assumes "agg_std xs = Fin 0" "x \<in> set xs"
  shows "agg_mean xs = Fin x"
proof -
  let ?m = "sum_list xs / real (length xs)"
  from assms(1) have len: "2 \<le> length xs"
    by (auto simp: agg_std_def split: if_splits)
  hence ne: "xs \<noteq> []" by auto
  from assms(1) len have "sqrt (sum_list (map (\<lambda>x. (x - ?m)\<^sup>2) xs) / real (length xs - 1)) = 0"
    by (simp add: agg_std_def Let_def)
  hence "sum_list (map (\<lambda>x. (x - ?m)\<^sup>2) xs) / real (length xs - 1) = 0" by simp
  hence "sum_list (map (\<lambda>x. (x - ?m)\<^sup>2) xs) = 0" using len by simp
  moreover have "\<forall>y \<in> set (map (\<lambda>x. (x - ?m)\<^sup>2) xs). 0 \<le> y" by auto
  ultimately have "\<forall>y \<in> set (map (\<lambda>x. (x - ?m)\<^sup>2) xs). y = 0"
    by (simp only: sum_list_nonneg_eq_0_iff)
  hence "(x - ?m)\<^sup>2 = 0" using assms(2) by auto
  hence "x = ?m" by simp
  thus ?thesis using ne by (simp add: agg_mean_def)
qed

lemma zero_std_spike:
  assumes "agg_std xs = Fin 0" "x \<in> set xs"
  shows "pydiv (pysub (Fin x) (agg_mean xs)) (agg_std xs) = NaN"
  using agg_std_zero[OF assms] assms(1) by simp

text \<open>
  C6. Nothing guards the division: for a row of the table whose user has a standard
  deviation of exactly 0 in a count measure, the numerator is 0 as well and the spike
  cell of that measure is NaN. This holds for each of the three spike columns.
\<close>

theorem zero_variance_spike_is_nan:
  assumes "r \<in> set df"
  shows "(logon_count_std df r = Fin 0 \<longrightarrow> logon_spike df r = NaN) \<and>
         (http_requests_std df r = Fin 0 \<longrightarrow> http_spike df r = NaN) \<and>
         (device_activity_count_std df r = Fin 0 \<longrightarrow> device_spike df r = NaN)"
proof -
  let ?g = "filter (\<lambda>x. user x = user r) df"
  have g: "r \<in> set ?g" using assms by simp
  note b = baseline_of_member[OF assms]
  have "logon_spike df r = NaN" if "logon_count_std df r = Fin 0"
  proof -
    have "agg_std (map logon_count ?g) = Fin 0"
      using that by (simp add: logon_count_std_def b Let_def)
    moreover have "logon_count r \<in> set (map logon_count ?g)" using assms by simp
    ultimately have "pydiv (pysub (Fin (logon_count r)) (agg_mean (map logon_count ?g)))
                       (agg_std (map logon_count ?g)) = NaN"
      by (rule zero_std_spike)
    thus ?thesis by (simp add: logon_spike_def logon_count_mean_def logon_count_std_def b Let_def)
  qed
  moreover have "http_spike df r = NaN" if "http_requests_std df r = Fin 0"
  proof -
    have "agg_std (map http_requests ?g) = Fin 0"
      using that by (simp add: http_requests_std_def b Let_def)
    moreover have "http_requests r \<in> set (map http_requests ?g)" using assms by simp
    ultimately have "pydiv (pysub (Fin (http_requests r)) (agg_mean (map http_requests ?g)))
                       (agg_std (map http_requests ?g)) = NaN"
      by (rule zero_std_spike)
    thus ?thesis
      by (simp add: http_spike_def http_requests_mean_def http_requests_std_def b Let_def)
  qed
  moreover have "device_spike df r = NaN" if "device_activity_count_std df r = Fin 0"
  proof -
    have "agg_std (map device_activity_count ?g) = Fin 0"
      using that by (simp add: device_activity_count_std_def b Let_def)
    moreover have "device_activity_count r \<in> set (map device_activity_count ?g)"
      using assms by simp
    ultimately have "pydiv (pysub (Fin (device_activity_count r))
                              (agg_mean (map device_activity_count ?g)))
                       (agg_std (map device_activity_count ?g)) = NaN"
      by (rule zero_std_spike)
    thus ?thesis
      by (simp add: device_spike_def device_activity_count_mean_def
          device_activity_count_std_def b Let_def)
  qed
  ultimately show ?thesis by blast
qed

lemma ex_baseline: "user_baseline example_spike_df =
  [(''bob'', (Fin 2, Fin 0), (Fin 0, Fin 0), (Fin 2, Fin (sqrt 2))),
   (''dee'', (Fin 3, Fin 2), (Fin 4, Fin 0), (Fin 0, Fin 0))]"
  by (simp add: user_baseline_def example_spike_df_def agg_mean_def agg_std_def power2_eq_square)

theorem zero_variance_spike_is_nan_witness:
  "logon_count_std example_spike_df (example_spike_df ! 1) = Fin 0 \<and>
   logon_spike example_spike_df (example_spike_df ! 1) = NaN \<and>
   http_requests_std example_spike_df (example_spike_df ! 0) = Fin 0 \<and>
   http_spike example_spike_df (example_spike_df ! 0) = NaN \<and>
   device_activity_count_std example_spike_df (example_spike_df ! 0) = Fin 0 \<and>
   device_spike example_spike_df (example_spike_df ! 0) = NaN"
proof -
  have m: "example_spike_df ! 1 \<in> set example_spike_df" "example_spike_df ! 0 \<in> set example_spike_df"
    by (simp_all add: example_spike_df_def)
  have s: "logon_count_std example_spike_df (example_spike_df ! 1) = Fin 0"
    "http_requests_std example_spike_df (example_spike_df ! 0) = Fin 0"
    "device_activity_count_std example_spike_df (example_spike_df ! 0) = Fin 0"
    by (simp_all add: logon_count_std_def http_requests_std_def device_activity_count_std_def
        baseline_of_def ex_baseline) (simp_all add: example_spike_df_def)
  show ?thesis
    using zero_variance_spike_is_nan[OF m(1)] zero_variance_spike_is_nan[OF m(2)] s by simp
qed

lemma zscore_of_group:
  assumes "x \<in> set xs"
  shows "pydiv (pysub (Fin x) (agg_mean xs)) (agg_std xs) =
         (let n = length xs; m = sum_list xs / real n;
              sd = sqrt (sum_list (map (\<lambda>y. (y - m)\<^sup>2) xs) / real (n - 1))
          in if n < 2 \<or> sd = 0 then NaN else Fin ((x - m) / sd))"
proof (cases "length xs < 2")
  case True
  then show ?thesis by (simp add: agg_std_def Let_def agg_mean_def)
next
  case False
  hence ne: "xs \<noteq> []" by auto
  show ?thesis
  proof (cases "agg_std xs = Fin 0")
    case True
    from zero_std_spike[OF True assms] True False show ?thesis
      by (simp add: agg_std_def Let_def)
  next
    case nz: False
    with False ne show ?thesis by (simp add: agg_std_def agg_mean_def Let_def)
  qed
qed

text \<open>
  C2, as the code has it. The three spike columns are not flags. For every row of the
  table each of them is the z-score of the row's count within the rows of its user,
  \<open>(value - mean) / std\<close> with the sample standard deviation, and NaN when the user
  has fewer than two rows or a standard deviation of 0; no threshold is applied. In the
  dashboard a ticked spike checkbox appends the condition \<open>column = TRUE\<close> to the
  filter and an unticked one appends nothing.
\<close>

theorem spike_columns_are_zscores:
  assumes "r \<in> set df"
  shows "logon_spike df r =
           (let xs = map logon_count (filter (\<lambda>x. user x = user r) df);
                n = length xs; m = sum_list xs / real n;
                sd = sqrt (sum_list (map (\<lambda>y. (y - m)\<^sup>2) xs) / real (n - 1))
            in if n < 2 \<or> sd = 0 then NaN else Fin ((logon_count r - m) / sd)) \<and>
         http_spike df r =
           (let xs = map http_requests (filter (\<lambda>x. user x = user r) df);
                n = length xs; m = sum_list xs / real n;
                sd = sqrt (sum_list (map (\<lambda>y. (y - m)\<^sup>2) xs) / real (n - 1))
            in if n < 2 \<or> sd = 0 then NaN else Fin ((http_requests r - m) / sd)) \<and>
         device_spike df r =
           (let xs = map device_activity_count (filter (\<lambda>x. user x = user r) df);
                n = length xs; m = sum_list xs / real n;
                sd = sqrt (sum_list (map (\<lambda>y. (y - m)\<^sup>2) xs) / real (n - 1))
            in if n < 2 \<or> sd = 0 then NaN else Fin ((device_activity_count r - m) / sd)) \<and>
         (LogonSpikeTrue \<in> set (query_conditions sel)) = filter_logon_spike sel \<and>
         (HttpSpikeTrue \<in> set (query_conditions sel)) = filter_http_spike sel \<and>
         (DeviceSpikeTrue \<in> set (query_conditions sel)) = filter_device_spike sel"
proof -
  let ?g = "filter (\<lambda>x. user x = user r) df"
  note b = baseline_of_member[OF assms]
  have l: "logon_count r \<in> set (map logon_count ?g)"
    and h: "http_requests r \<in> set (map http_requests ?g)"
    and d: "device_activity_count r \<in> set (map device_activity_count ?g)"
    using assms by simp_all
  have 1: "logon_spike df r =
           pydiv (pysub (Fin (logon_count r)) (agg_mean (map logon_count ?g)))
             (agg_std (map logon_count ?g))"
    by (simp add: logon_spike_def logon_count_mean_def logon_count_std_def b Let_def)
  have 2: "http_spike df r =
           pydiv (pysub (Fin (http_requests r)) (agg_mean (map http_requests ?g)))
             (agg_std (map http_requests ?g))"
    by (simp add: http_spike_def http_requests_mean_def http_requests_std_def b Let_def)
  have 3: "device_spike df r =
           pydiv (pysub (Fin (device_activity_count r)) (agg_mean (map device_activity_count ?g)))
             (agg_std (map device_activity_count ?g))"
    by (simp add: device_spike_def device_activity_count_mean_def
        device_activity_count_std_def b Let_def)
  have q: "(LogonSpikeTrue \<in> set (query_conditions sel)) = filter_logon_spike sel"
    "(HttpSpikeTrue \<in> set (query_conditions sel)) = filter_http_spike sel"
    "(DeviceSpikeTrue \<in> set (query_conditions sel)) = filter_device_spike sel"
    by (auto simp: query_conditions_def date_conditions_def split: list.splits)
  show ?thesis
    unfolding 1 2 3 zscore_of_group[OF l] zscore_of_group[OF h] zscore_of_group[OF d]
    using q by (simp add: Let_def)
qed

theorem spike_columns_are_zscores_witness:
  "logon_spike example_spike_df (example_spike_df ! 4) = Fin 1 \<and>
   logon_spike example_spike_df (example_spike_df ! 2) = Fin 0 \<and>
   http_spike example_spike_df (example_spike_df ! 2) = NaN \<and>
   device_spike example_spike_df (example_spike_df ! 3) = Fin (1 / sqrt 2) \<and>
   LogonSpikeTrue \<in> set (query_conditions (example_selection\<lparr>filter_logon_spike := True\<rparr>)) \<and>
   HttpSpikeTrue \<notin> set (query_conditions (example_selection\<lparr>filter_logon_spike := True\<rparr>))"
proof -
  let ?sel = "example_selection\<lparr>filter_logon_spike := True\<rparr>"
  have m: "example_spike_df ! 4 \<in> set example_spike_df"
    "example_spike_df ! 2 \<in> set example_spike_df"
    "example_spike_df ! 3 \<in> set example_spike_df"
    by (simp_all add: example_spike_df_def)
  have f: "filter_logon_spike ?sel" "\<not> filter_http_spike ?sel"
    by (simp_all add: example_selection_def)
  have "logon_spike example_spike_df (example_spike_df ! 4) = Fin 1"
    using spike_columns_are_zscores[OF m(1), of ?sel]
    by (simp add: example_spike_df_def Let_def power2_eq_square)
  moreover have "logon_spike example_spike_df (example_spike_df ! 2) = Fin 0 \<and>
      http_spike example_spike_df (example_spike_df ! 2) = NaN"
    using spike_columns_are_zscores[OF m(2), of ?sel]
    by (simp add: example_spike_df_def Let_def power2_eq_square)
  moreover have "device_spike example_spike_df (example_spike_df ! 3) = Fin (1 / sqrt 2)"
    using spike_columns_are_zscores[OF m(3), of ?sel]
    by (simp add: example_spike_df_def Let_def power2_eq_square)
  moreover have "LogonSpikeTrue \<in> set (query_conditions ?sel) \<and>
      HttpSpikeTrue \<notin> set (query_conditions ?sel)"
    using spike_columns_are_zscores[OF m(1), of ?sel] f by blast
  ultimately show ?thesis by blast
qed

text \<open>
  C2, as the specification has it, fails: on the sample table the \<open>logon_spike\<close> cell
  of the first row is the number -1, which is no boolean however it is encoded.
\<close>

theorem spike_columns_boolean_counterexample:
  "logon_spike example_spike_df (example_spike_df ! 0) = Fin (- 1) \<and>
   logon_spike example_spike_df (example_spike_df ! 0) \<noteq> Fin 0 \<and>
   logon_spike example_spike_df (example_spike_df ! 0) \<noteq> Fin 1"
  by (simp add: logon_spike_def logon_count_mean_def logon_count_std_def baseline_of_def ex_baseline)
     (simp add: example_spike_df_def)

section \<open>Properties of the rolling mean\<close>

lemma filter_nth_index:
  assumes "p < length xs" "P (xs ! p)"
  shows "length (filter P (take p xs)) < length (filter P xs)"
    and "filter P xs ! length (filter P (take p xs)) = xs ! p"
proof -
  have "xs = take p xs @ xs ! p # drop (Suc p) xs"
    using assms(1) by (rule id_take_nth_drop)
  hence "filter P xs = filter P (take p xs @ xs ! p # drop (Suc p) xs)" by simp
  hence f: "filter P xs = filter P (take p xs) @ xs ! p # filter P (drop (Suc p) xs)"
    using assms(2) by simp
  have "length (filter P xs) = length (filter P (take p xs) @ xs ! p # filter P (drop (Suc p) xs))"
    using f by (rule arg_cong)
  thus "length (filter P (take p xs)) < length (filter P xs)" by simp
  have "filter P xs ! length (filter P (take p xs))
        = (filter P (take p xs) @ xs ! p # filter P (drop (Suc p) xs)) ! length (filter P (take p xs))"
    using f by (rule arg_cong)
  thus "filter P xs ! length (filter P (take p xs)) = xs ! p" by simp
qed

lemma drop_take_nths:
  assumes "b \<le> length xs"
  shows "drop a (take b xs) = map (\<lambda>j. xs ! j) [a..<b]"
  using assms by (intro nth_equalityI) auto

lemma rolling_mean_3_nth:
  assumes "i < length x"
  shows "rolling_mean 3 1 x ! i =
         Fin (sum_list (map (\<lambda>j. x ! j) [i - 2..<Suc i]) / real (Suc i - (i - 2)))"
proof -
  have "Suc i - 3 = i - 2" by simp
  hence w: "drop (Suc i - 3) (take (Suc i) x) = map (\<lambda>j. x ! j) [i - 2..<Suc i]"
    using assms drop_take_nths[of "Suc i" x "i - 2"] by (simp only: Suc_leI)
  have "rolling_mean 3 1 x ! i =
        (let w = drop (Suc i - 3) (take (Suc i) x)
         in if length w < 1 then NaN else Fin (sum_list w / real (length w)))"
    using assms by (simp add: rolling_mean_def)
  also have "\<dots> = Fin (sum_list (map (\<lambda>j. x ! j) [i - 2..<Suc i]) / real (Suc i - (i - 2)))"
    unfolding w Let_def by simp
  finally show ?thesis .
qed

lemma transform_nth:
  assumes "p < length df"
  shows "transform by col f df ! p =
         f (map col (filter (\<lambda>r. by r = by (df ! p)) df))
           ! length (filter (\<lambda>r. by r = by (df ! p)) (take p df))"
  using assms by (simp add: transform_def)

lemma sorted_dates_of_user:
  "sorted (map date (filter (\<lambda>r. user r = u) (sort_values df)))"
proof -
  let ?S = "filter (\<lambda>r. user r = u) (sort_values df)"
  have "sorted (map (\<lambda>r. (user r, date r)) (sort_values df))"
    by (simp add: sort_values_def)
  hence "sorted (map (\<lambda>r. (user r, date r)) ?S)" by (rule sorted_filter)
  hence "sorted_wrt (\<lambda>a b. (user a, date a) \<le> (user b, date b)) ?S"
    by (simp add: sorted_map)
  hence "sorted_wrt (\<lambda>a b. date a \<le> date b) ?S"
    by (rule sorted_wrt_mono_rel[rotated]) auto
  thus ?thesis by (simp add: sorted_map)
qed

text \<open>
  C5. In the table sorted by user and date, take the row at position \<open>p\<close>; let
  \<open>s\<close> be the rows of its user, which are in ascending date order, and \<open>i\<close> its
  index among them. Then \<open>logon_rolling_3\<close> at \<open>p\<close> is the arithmetic mean of
  \<open>logon_count\<close> over the rows \<open>max 0 (i - 2), \<dots>, i\<close> of \<open>s\<close> (one, two or three
  rows), and \<open>logon_delta\<close> at \<open>p\<close> is \<open>logon_count\<close> minus that mean.
\<close>

theorem logon_rolling_3_trailing_window:
  assumes "p < length (sort_values df)"
  shows "let t = sort_values df;
             s = filter (\<lambda>r. user r = user (t ! p)) t;
             i = length (filter (\<lambda>r. user r = user (t ! p)) (take p t));
             m = sum_list (map (\<lambda>j. logon_count (s ! j)) [i - 2..<Suc i]) / real (Suc i - (i - 2))
         in i < length s \<and> s ! i = t ! p \<and> sorted (map date s) \<and>
            logon_rolling_3 t ! p = Fin m \<and>
            logon_delta t ! p = Fin (logon_count (t ! p) - m)"
proof -
  define t where "t = sort_values df"
  define s where "s = filter (\<lambda>r. user r = user (t ! p)) t"
  define i where "i = length (filter (\<lambda>r. user r = user (t ! p)) (take p t))"
  define m where
    "m = sum_list (map (\<lambda>j. logon_count (s ! j)) [i - 2..<Suc i]) / real (Suc i - (i - 2))"
  have p: "p < length t" using assms by (simp add: t_def)
  have i: "i < length s" and si: "s ! i = t ! p"
    using filter_nth_index[OF p, of "\<lambda>r. user r = user (t ! p)"] by (simp_all add: s_def i_def)
  have srt: "sorted (map date s)"
    unfolding s_def t_def by (rule sorted_dates_of_user)
  have "logon_rolling_3 t ! p = rolling_mean 3 1 (map logon_count s) ! i"
    using p by (simp add: logon_rolling_3_def transform_nth s_def i_def)
  also have "\<dots> = Fin (sum_list (map (\<lambda>j. map logon_count s ! j) [i - 2..<Suc i])
                        / real (Suc i - (i - 2)))"
    using i by (intro rolling_mean_3_nth) simp
  also have "map (\<lambda>j. map logon_count s ! j) [i - 2..<Suc i]
             = map (\<lambda>j. logon_count (s ! j)) [i - 2..<Suc i]"
    using i by (intro map_cong) auto
  finally have roll: "logon_rolling_3 t ! p = Fin m" by (simp add: m_def)
  have len: "length (logon_rolling_3 t) = length t"
    by (simp add: logon_rolling_3_def transform_def)
  have "logon_delta t ! p = pysub (Fin (logon_count (t ! p))) (logon_rolling_3 t ! p)"
    using p len by (simp add: logon_delta_def)
  hence delta: "logon_delta t ! p = Fin (logon_count (t ! p) - m)" by (simp add: roll)
  show ?thesis
    using i si srt roll delta
    unfolding Let_def t_def[symmetric] s_def[symmetric] i_def[symmetric] m_def[symmetric]
    by simp
qed

theorem logon_rolling_3_trailing_window_witness:
  "logon_rolling_3 (sort_values example_rolling_df) ! 0 = Fin 5 \<and>
   logon_rolling_3 (sort_values example_rolling_df) ! 1 = Fin 6 \<and>
   logon_rolling_3 (sort_values example_rolling_df) ! 3 = Fin (116 / 3) \<and>
   logon_delta (sort_values example_rolling_df) ! 3 = Fin (184 / 3) \<and>
   logon_rolling_3 (sort_values example_rolling_df) ! 4 = Fin 2"
proof -
  have len: "length (sort_values example_rolling_df) = 6"
    by (simp add: sort_values_def example_rolling_df_def)
  have s: "sort_values example_rolling_df =
     [\<lparr>user = ''al'', date = ((2010, 1, 4), (0, 0, 0)), logon_count = 5, http_requests = 3,
        http_bytes_sent = 10, http_bytes_received = 20, device_activity_count = 0\<rparr>,
      \<lparr>user = ''al'', date = ((2010, 1, 5), (0, 0, 0)), logon_count = 7, http_requests = 1,
        http_bytes_sent = 0, http_bytes_received = 0, device_activity_count = 0\<rparr>,
      \<lparr>user = ''al'', date = ((2010, 1, 6), (0, 0, 0)), logon_count = 9, http_requests = 0,
        http_bytes_sent = 0, http_bytes_received = 0, device_activity_count = 0\<rparr>,
      \<lparr>user = ''al'', date = ((2010, 1, 7), (0, 0, 0)), logon_count = 100, http_requests = 0,
        http_bytes_sent = 0, http_bytes_received = 0, device_activity_count = 0\<rparr>,
      \<lparr>user = ''bob'', date = ((2010, 1, 4), (0, 0, 0)), logon_count = 2, http_requests = 0,
        http_bytes_sent = 0, http_bytes_received = 0, device_activity_count = 0\<rparr>,
      \<lparr>user = ''bob'', date = ((2010, 1, 5), (0, 0, 0)), logon_count = 2, http_requests = 0,
        http_bytes_sent = 0, http_bytes_received = 0, device_activity_count = 1\<rparr>]"
    by (simp add: sort_values_def example_rolling_df_def)
  have "logon_rolling_3 (sort_values example_rolling_df) ! 0 = Fin 5"
    using logon_rolling_3_trailing_window[of 0 example_rolling_df] len
    unfolding s by (simp add: Let_def)
  moreover have "logon_rolling_3 (sort_values example_rolling_df) ! 1 = Fin 6"
    using logon_rolling_3_trailing_window[of 1 example_rolling_df] len
    unfolding s by (simp add: Let_def upt_rec numeral_2_eq_2)
  moreover have "logon_rolling_3 (sort_values example_rolling_df) ! 3 = Fin (116 / 3) \<and>
     logon_delta (sort_values example_rolling_df) ! 3 = Fin (184 / 3)"
    using logon_rolling_3_trailing_window[of 3 example_rolling_df] len
    unfolding s by (simp add: Let_def upt_rec numeral_3_eq_3 numeral_2_eq_2)
  moreover have "logon_rolling_3 (sort_values example_rolling_df) ! 4 = Fin 2"
    using logon_rolling_3_trailing_window[of 4 example_rolling_df] len
    unfolding s by (simp add: Let_def upt_rec numeral_3_eq_3 numeral_2_eq_2 eval_nat_numeral)
  ultimately show ?thesis by simp
qed

section \<open>Properties of the dashboard\<close>

lemma select_where_cong:
  assumes "\<And>r. r \<in> set tbl \<Longrightarrow>
             list_all (\<lambda>c. holds is_true c r) conds = list_all (\<lambda>c. holds is_true c r) conds'"
  shows "select_where is_true conds tbl = select_where is_true conds' tbl"
  unfolding select_where_def using assms by (intro filter_cong) auto

lemma count_of_base_query:
  "filtered_row_count eng tbl sel =
     (case base_query eng tbl sel of Inl exc \<Rightarrow> Inl exc | Inr rows \<Rightarrow> Inr (length rows))"
  by (simp add: filtered_row_count_def base_query_def)

lemma in_emit: "x \<in> set (fst (emit els rest)) \<longleftrightarrow> x \<in> set els \<or> x \<in> set (fst rest)"
  by (simp add: emit_def)

lemma in_and_then:
  "x \<in> set (fst (and_then first second)) \<Longrightarrow> x \<in> set (fst first) \<or> x \<in> set (fst second)"
  by (auto simp: and_then_def split: if_splits)

lemma no_download_tab1: "DownloadButton name rows \<notin> set (fst (tab1 eng tbl sel))"
  by (auto simp: tab1_def on_result_def emit_def split: sum.splits)

lemma no_download_tab2: "DownloadButton name rows \<notin> set (fst (tab2 eng tbl sel n))"
  by (auto simp: tab2_def on_result_def split: sum.splits)

lemma no_download_tab3: "DownloadButton name rows \<notin> set (fst (tab3 eng tbl sel))"
  by (auto simp: tab3_def on_result_def emit_def split: sum.splits)

lemma download_tab4:
  "DownloadButton name rows \<in> set (fst (tab4 eng tbl sel)) \<Longrightarrow> base_query eng tbl sel = Inr rows"
  by (auto simp: tab4_def on_result_def split: sum.splits if_splits)

lemma no_download_sidebar:
  "sidebar eng tbl sel = Inr shown \<Longrightarrow> DownloadButton name rows \<notin> set shown"
  "sidebar eng tbl sel = Inl ended \<Longrightarrow> DownloadButton name rows \<notin> set (fst ended)"
  by (auto simp: sidebar_def Let_def split: if_splits)

lemma downloads_of_render:
  assumes "DownloadButton name rows \<in> set (fst (render eng tbl sel))"
  shows "base_query eng tbl sel = Inr rows"
proof (cases "sidebar eng tbl sel")
  case (Inl ended)
  with assms no_download_sidebar(2)[OF Inl] show ?thesis by (simp add: render_def)
next
  case (Inr shown)
  let ?d = "DownloadButton name rows"
  have tabs: "base_query eng tbl sel = Inr rows"
    if "?d \<in> set (fst (and_then (tab1 eng tbl sel)
                      (and_then (tab2 eng tbl sel n)
                         (and_then (tab3 eng tbl sel) (tab4 eng tbl sel)))))" for n
    using that no_download_tab1[of name rows eng tbl sel] no_download_tab2[of name rows eng tbl sel n]
      no_download_tab3[of name rows eng tbl sel] download_tab4[of name rows eng tbl sel]
    by (blast dest: in_and_then)
  from assms Inr no_download_sidebar(1)[OF Inr, of name rows] show ?thesis
    by (auto simp: render_def emit_def on_result_def kpis_def
        split: sum.splits if_splits list.splits dest: tabs)
qed


lemma ex_conditions: "query_conditions example_selection =
    [DateRange (2010, 1, 4) (2010, 1, 5), UserIn [''al'', ''bob''],
     RiskLevelIn [''Low'', ''Medium'', ''High'']]"
  by (simp add: query_conditions_def date_conditions_def example_selection_def)

lemma ex_base: "base_query example_engine example_user_data example_selection = Inr example_user_data"
  by (simp add: base_query_def run_query_def ex_conditions sql_safe_def select_where_def
      example_engine_def flag_is_true_def example_user_data_def)

lemma ex_count: "filtered_row_count example_engine example_user_data example_selection = Inr 3"
  using ex_base by (simp add: filtered_row_count_def base_query_def example_user_data_def)

lemma ex_range: "date_range example_selection = [(2010, 1, 4), (2010, 1, 5)]"
  by (simp add: example_selection_def)

lemma ex_sidebar: "sidebar example_engine example_user_data example_selection = Inr [Title]"
  by (simp add: sidebar_def example_selection_def example_user_data_def)

lemma ex_high: "high_risk_rows example_engine example_user_data example_selection
    = Inr [example_user_data ! 1]"
  by (simp add: high_risk_rows_def run_query_def ex_conditions sql_safe_def select_where_def
      example_engine_def example_user_data_def)

lemma ex_flagged: "flagged_details example_engine example_user_data example_selection
    = Inr [example_user_data ! 1, example_user_data ! 2]"
  by (simp add: flagged_details_def run_query_def ex_conditions sql_safe_def select_where_def
      example_engine_def example_user_data_def)

lemma ex_completed: "snd (render example_engine example_user_data example_selection) = Completed"
  by (simp add: render_def ex_sidebar ex_count ex_base ex_range ex_high ex_flagged
      emit_def on_result_def and_then_def tab1_def tab2_def tab3_def tab4_def)

lemma ex_download:
  "DownloadButton ''filtered_user_risk_analysis.csv'' example_user_data
     \<in> set (fst (render example_engine example_user_data example_selection))"
proof -
  have ne: "example_user_data \<noteq> []" by (simp add: example_user_data_def)
  show ?thesis
    using ne
    by (simp add: render_def ex_sidebar ex_count ex_base ex_range ex_high ex_flagged
        emit_def on_result_def and_then_def tab1_def tab2_def tab3_def tab4_def)
qed


text \<open>
  C8. Let the count query return 0. When the script reaches the query, the run consists
  of the title, possibly the sidebar's date-range warning, and the warning that no data
  matches; it ends by \<open>st.stop()\<close>, not by an exception, and no metric, chart, table
  or download button is emitted. On any loaded table that is not empty the run ends this
  way, with this warning or with the earlier warning that no users were found.
\<close>

theorem zero_rows_warn_and_stop:
  assumes "filtered_row_count eng tbl sel = Inr 0"
  shows "(sidebar eng tbl sel = Inr shown \<longrightarrow>
            render eng tbl sel =
              (shown @ [Warning
                 ''No data matches the selected filters. Please adjust your selections.''],
               Stopped) \<and>
            set shown \<subseteq> {Title, SidebarWarning ''Please select a valid date range.''}) \<and>
         (tbl \<noteq> [] \<longrightarrow>
            (\<exists>els msg. render eng tbl sel = (els @ [Warning msg], Stopped) \<and>
               set els \<subseteq> {Title, SidebarWarning ''Please select a valid date range.''}))"
proof -
  have reached: "render eng tbl sel =
           (els @ [Warning
              ''No data matches the selected filters. Please adjust your selections.''], Stopped) \<and>
         set els \<subseteq> {Title, SidebarWarning ''Please select a valid date range.''}"
    if "sidebar eng tbl sel = Inr els" for els
  proof -
    have "render eng tbl sel =
           (els @ [Warning
              ''No data matches the selected filters. Please adjust your selections.''], Stopped)"
      using that assms by (simp add: render_def emit_def on_result_def)
    moreover have "set els \<subseteq> {Title, SidebarWarning ''Please select a valid date range.''}"
      using that by (auto simp: sidebar_def Let_def split: if_splits)
    ultimately show ?thesis by simp
  qed
  have general: "\<exists>els msg. render eng tbl sel = (els @ [Warning msg], Stopped) \<and>
               set els \<subseteq> {Title, SidebarWarning ''Please select a valid date range.''}"
    if ne: "tbl \<noteq> []"
  proof (cases "sidebar eng tbl sel")
    case (Inr els)
    from reached[OF Inr] show ?thesis by blast
  next
    case (Inl ended)
    let ?els = "Title # (if length (date_range sel) = 2 then []
                         else [SidebarWarning ''Please select a valid date range.''])"
    from Inl ne have "ended = (?els @ [Warning
        ''No users found for the selected date range. Please adjust filters.''], Stopped)"
      by (auto simp: sidebar_def Let_def split: if_splits)
    hence "render eng tbl sel = (?els @ [Warning
        ''No users found for the selected date range. Please adjust filters.''], Stopped)"
      using Inl by (simp add: render_def)
    moreover have "set ?els \<subseteq> {Title, SidebarWarning ''Please select a valid date range.''}"
      by simp
    ultimately show ?thesis by blast
  qed
  show ?thesis using reached general by blast
qed

theorem zero_rows_warn_and_stop_witness:
  "sidebar example_engine example_user_data
     (example_selection\<lparr>selected_users := [''bob''], selected_risk_levels := [''High'']\<rparr>)
     = Inr [Title] \<and>
   filtered_row_count example_engine example_user_data
     (example_selection\<lparr>selected_users := [''bob''], selected_risk_levels := [''High'']\<rparr>)
     = Inr 0 \<and>
   render example_engine example_user_data
     (example_selection\<lparr>selected_users := [''bob''], selected_risk_levels := [''High'']\<rparr>)
     = ([Title, Warning ''No data matches the selected filters. Please adjust your selections.''],
        Stopped)"
proof -
  let ?sel = "example_selection\<lparr>selected_users := [''bob''], selected_risk_levels := [''High'']\<rparr>"
  have s: "sidebar example_engine example_user_data ?sel = Inr [Title]"
    by (simp add: sidebar_def example_selection_def example_user_data_def)
  have c: "filtered_row_count example_engine example_user_data ?sel = Inr 0"
    by (simp add: filtered_row_count_def run_query_def select_where_def query_conditions_def
        date_conditions_def sql_safe_def example_selection_def example_user_data_def
        example_engine_def)
  show ?thesis using zero_rows_warn_and_stop[OF c, of "[Title]"] s c by simp
qed

lemma render_cong:
  assumes sb: "sidebar eng tbl a = sidebar eng tbl b"
    and dr: "date_range a = date_range b"
    and rq: "\<And>extra. list_all well_quoted extra \<Longrightarrow>
               run_query eng (query_conditions a @ extra) tbl
                 = run_query eng (query_conditions b @ extra) tbl"
  shows "render eng tbl a = render eng tbl b"
proof -
  have bq: "base_query eng tbl a = base_query eng tbl b"
    using rq[of "[]"] by (simp add: base_query_def)
  have fc: "filtered_row_count eng tbl a = filtered_row_count eng tbl b"
    using rq[of "[]"] by (simp add: filtered_row_count_def)
  have hr: "high_risk_rows eng tbl a = high_risk_rows eng tbl b"
    using rq[of "[RiskLevelIs ''High'']"] by (simp add: high_risk_rows_def sql_safe_def)
  have fd: "flagged_details eng tbl a = flagged_details eng tbl b"
    using rq[of "[RiskLevelIn [''High'', ''Medium'']]"]
    by (simp add: flagged_details_def sql_safe_def)
  have t1: "tab1 eng tbl a = tab1 eng tbl b" by (simp add: tab1_def bq hr)
  have t2: "tab2 eng tbl a n = tab2 eng tbl b n" for n by (simp add: tab2_def fd)
  have t3: "tab3 eng tbl a = tab3 eng tbl b" by (simp add: tab3_def bq hr)
  have t4: "tab4 eng tbl a = tab4 eng tbl b" by (simp add: tab4_def bq)
  show ?thesis
    unfolding render_def sb dr bq fc t1 t2 t3 t4 ..
qed

lemma list_all_query_conditions:
  "list_all (\<lambda>c. holds is_true c r) (query_conditions sel @ extra) =
     (list_all (\<lambda>c. holds is_true c r) (date_conditions sel) \<and>
      (selected_users sel \<noteq> [] \<longrightarrow> col_user r \<in> set (selected_users sel)) \<and>
      (selected_risk_levels sel \<noteq> [] \<longrightarrow> col_risk_level r \<in> set (selected_risk_levels sel)) \<and>
      (filter_logon_spike sel \<longrightarrow> is_true (col_logon_spike r)) \<and>
      (filter_http_spike sel \<longrightarrow> is_true (col_http_spike r)) \<and>
      (filter_device_spike sel \<longrightarrow> is_true (col_device_spike r)) \<and>
      list_all (\<lambda>c. holds is_true c r) extra)"
  by (simp add: query_conditions_def)

lemma well_quoted_date_conditions: "list_all well_quoted (date_conditions sel)"
  by (simp add: date_conditions_def split: list.splits)

lemma well_quoted_query_conditions:
  "list_all well_quoted (query_conditions sel @ extra) =
     (list_all sql_safe (selected_users sel) \<and> list_all sql_safe (selected_risk_levels sel) \<and>
      list_all well_quoted extra)"
  using well_quoted_date_conditions[of sel] by (auto simp: query_conditions_def)

lemma date_conditions_upd [simp]:
  "date_conditions (sel\<lparr>selected_risk_levels := ls\<rparr>) = date_conditions sel"
  "date_conditions (sel\<lparr>selected_users := us\<rparr>) = date_conditions sel"
  by (simp_all add: date_conditions_def)

lemma all_users_upd [simp]:
  "all_users eng tbl (sel\<lparr>selected_risk_levels := ls\<rparr>) = all_users eng tbl sel"
  "all_users eng tbl (sel\<lparr>selected_users := us\<rparr>) = all_users eng tbl sel"
  by (simp_all add: all_users_def)

lemma user_in_all_users:
  assumes "r \<in> set tbl" "list_all (\<lambda>c. holds (cell_is_true eng) c r) (date_conditions sel)"
  shows "col_user r \<in> set (all_users eng tbl sel)"
  using assms by (auto simp: all_users_def select_where_def)

lemma sql_safe_RISK_LEVEL_ORDER: "list_all sql_safe RISK_LEVEL_ORDER"
  by (simp add: RISK_LEVEL_ORDER_def sql_safe_def)

lemma classify_risk_in_order: "classify_risk low high score \<in> set RISK_LEVEL_ORDER"
  by (simp add: classify_risk_def RISK_LEVEL_ORDER_def)

lemma risk_level_in_order: "set (risk_level scores) \<subseteq> set RISK_LEVEL_ORDER"
  by (auto simp: risk_level_def classify_risk_in_order)




text \<open>
  The user half of the original statement fails as well, by the unescaped names: with a
  user o'neil in the table and an engine that rejects the text, the run with every user
  selected ends in the exception at the count query, the run with none selected reaches
  the end of the script.
\<close>

lemma apostrophe_in_selected_name_raises:
  "all_users example_engine example_apostrophe example_selection = [''o'neil''] \<and>
   render example_engine example_apostrophe (example_selection\<lparr>selected_users := [''o'neil'']\<rparr>)
     = ([Title], Raised ''ParserException'') \<and>
   snd (render example_engine example_apostrophe (example_selection\<lparr>selected_users := []\<rparr>))
     = Completed"
proof -
  let ?all = "example_selection\<lparr>selected_users := [''o'neil'']\<rparr>"
  let ?none = "example_selection\<lparr>selected_users := []\<rparr>"
  have au: "all_users example_engine example_apostrophe example_selection = [''o'neil'']"
    by (simp add: all_users_def select_where_def date_conditions_def example_selection_def
        example_apostrophe_def)
  have s: "sidebar example_engine example_apostrophe ?all = Inr [Title]"
    by (simp add: sidebar_def example_selection_def example_apostrophe_def)
  have c: "filtered_row_count example_engine example_apostrophe ?all = Inl ''ParserException''"
    by (simp add: filtered_row_count_def run_query_def query_conditions_def date_conditions_def
        sql_safe_def example_selection_def example_engine_def)
  have r: "render example_engine example_apostrophe ?all = ([Title], Raised ''ParserException'')"
    by (simp add: render_def s c emit_def on_result_def)
  have s0: "sidebar example_engine example_apostrophe ?none = Inr [Title]"
    using au by (simp add: sidebar_def Let_def) (simp add: example_selection_def example_apostrophe_def)
  have q: "run_query example_engine (query_conditions ?none @ extra) example_apostrophe
           = Inr (select_where flag_is_true (query_conditions ?none @ extra) example_apostrophe)"
    if "list_all well_quoted extra" for extra
    using that
    by (simp add: run_query_def query_conditions_def date_conditions_def sql_safe_def
        example_selection_def example_engine_def)
  have b: "base_query example_engine example_apostrophe ?none = Inr example_apostrophe"
    unfolding base_query_def using q[of "[]"]
    by (simp add: select_where_def query_conditions_def date_conditions_def
        example_selection_def example_apostrophe_def)
  have n: "filtered_row_count example_engine example_apostrophe ?none = Inr 1"
    using b by (simp add: filtered_row_count_def base_query_def example_apostrophe_def)
  have h: "\<exists>rows. high_risk_rows example_engine example_apostrophe ?none = Inr rows"
    unfolding high_risk_rows_def using q[of "[RiskLevelIs ''High'']"] by (simp add: sql_safe_def)
  have f: "\<exists>rows. flagged_details example_engine example_apostrophe ?none = Inr rows"
    unfolding flagged_details_def using q[of "[RiskLevelIn [''High'', ''Medium'']]"]
    by (simp add: sql_safe_def)
  have dr: "date_range ?none = [(2010, 1, 4), (2010, 1, 5)]" by (simp add: example_selection_def)
  have "snd (render example_engine example_apostrophe ?none) = Completed"
    using h f
    by (auto simp: render_def s0 n b dr emit_def on_result_def and_then_def
        tab1_def tab2_def tab3_def tab4_def)
  with au r show ?thesis by simp
qed

end
